theory Spec2Isabelle
  imports Complex_Main "HOL-Library.Char_ord" "HOL-Library.List_Lexorder"
begin

section \<open>JavaScript numbers and the per-sample clamp\<close>

text \<open>
  A JavaScript number is a finite value, one of the two infinities, or NaN. Every
  finite double is a rational, and the operations the encoder applies to a sample
  (\<open>|| 0\<close>, \<open>Math.floor\<close>, \<open>Math.min\<close>, \<open>Math.max\<close>) are exact on doubles, so finite
  values are modelled as rationals.
\<close>

datatype jsnum = Fin rat | PosInf | NegInf | NaN

text \<open>\<open>xs[i]\<close>: reading beyond the end of an array yields \<open>undefined\<close>, here \<open>None\<close>.\<close>

definition js_index :: "'a list \<Rightarrow> nat \<Rightarrow> 'a option" where
  "js_index xs i = (if i < length xs then Some (xs ! i) else None)"

text \<open>\<open>v || 0\<close>: \<open>undefined\<close>, NaN and zero are falsy and are replaced by 0.\<close>

fun or_zero :: "jsnum option \<Rightarrow> jsnum" where
  "or_zero None = Fin 0"
| "or_zero (Some NaN) = Fin 0"
| "or_zero (Some (Fin q)) = (if q = 0 then Fin 0 else Fin q)"
| "or_zero (Some PosInf) = PosInf"
| "or_zero (Some NegInf) = NegInf"

fun js_floor :: "jsnum \<Rightarrow> jsnum" where
  "js_floor (Fin q) = Fin (of_int \<lfloor>q\<rfloor>)"
| "js_floor PosInf = PosInf"
| "js_floor NegInf = NegInf"
| "js_floor NaN = NaN"

fun js_min :: "jsnum \<Rightarrow> jsnum \<Rightarrow> jsnum" where
  "js_min NaN _ = NaN"
| "js_min _ NaN = NaN"
| "js_min NegInf _ = NegInf"
| "js_min _ NegInf = NegInf"
| "js_min PosInf y = y"
| "js_min x PosInf = x"
| "js_min (Fin a) (Fin b) = Fin (min a b)"

fun js_max :: "jsnum \<Rightarrow> jsnum \<Rightarrow> jsnum" where
  "js_max NaN _ = NaN"
| "js_max _ NaN = NaN"
| "js_max PosInf _ = PosInf"
| "js_max _ PosInf = PosInf"
| "js_max NegInf y = y"
| "js_max x NegInf = x"
| "js_max (Fin a) (Fin b) = Fin (max a b)"

text \<open>
  \<open>String.fromCharCode(n)\<close> appends the code unit \<open>ToUint16(n)\<close>: the number is
  truncated towards zero and reduced modulo \<open>2^16\<close>; NaN and the infinities give 0.
\<close>

fun to_uint16 :: "jsnum \<Rightarrow> nat" where
  "to_uint16 (Fin q) = nat ((if q < 0 then - \<lfloor>- q\<rfloor> else \<lfloor>q\<rfloor>) mod 65536)"
| "to_uint16 _ = 0"

text \<open>
  The value of \<open>r\<close>, \<open>g\<close> or \<open>b\<close> in the pixel loop of \<open>convertTensorToVideo\<close>:
  \<open>Math.max(0, Math.min(255, Math.floor(frame.tensor_data[j] || 0)))\<close>.
\<close>

definition clamp_sample :: "jsnum option \<Rightarrow> jsnum" where
  "clamp_sample v = js_max (Fin 0) (js_min (Fin 255) (js_floor (or_zero v)))"

text \<open>The code unit that \<open>String.fromCharCode\<close> emits for that value.\<close>

definition sample_unit :: "jsnum option \<Rightarrow> nat" where
  "sample_unit v = to_uint16 (clamp_sample v)"

section \<open>Strings: decimal rendering, padding and the staged file names\<close>

definition digit_char :: "nat \<Rightarrow> char" where
  "digit_char d = char_of (48 + d)"

text \<open>
  \<open>n.toString()\<close> and \<open>`${n}`\<close> for a natural number \<open>n\<close>: its decimal digits (what
  JavaScript prints below \<open>10^21\<close>).
\<close>

fun toString :: "nat \<Rightarrow> string" where
  "toString n = (if n < 10 then [digit_char n] else toString (n div 10) @ [digit_char (n mod 10)])"

declare toString.simps [simp del]

text \<open>\<open>s.padStart(w, c)\<close> with a one-character filler.\<close>

definition padStart :: "nat \<Rightarrow> char \<Rightarrow> string \<Rightarrow> string" where
  "padStart w c s = replicate (w - length s) c @ s"

text \<open>\<open>`frame_${frameIndex.toString().padStart(6, '0')}.ppm`\<close>\<close>

definition frame_name :: "nat \<Rightarrow> string" where
  "frame_name i = ''frame_'' @ padStart 6 (CHR ''0'') (toString i) @ ''.ppm''"

section \<open>The payload and the image built for one frame\<close>

text \<open>
  \<open>interface VideoTensorData\<close>. The geometry fields are natural numbers (the spec's
  \<open>u32\<close>); the per-frame fields carry a prefix, the payload-level ones keep the
  source's names.
\<close>

record frame =
  frame_index :: nat
  timestamp :: string
  tensor_data :: "jsnum list"
  frame_width :: nat
  frame_height :: nat
  frame_channels :: nat

record payload =
  camera_name :: string
  frames :: "frame list"
  width :: nat
  height :: nat
  channels :: nat

text \<open>
  A JavaScript string is a sequence of UTF-16 code units, here natural numbers below
  \<open>2^16\<close>. \<open>ppmContent\<close> starts as the header \<open>`P6\n${width} ${height}\n255\n`\<close>.
\<close>

definition units_of :: "string \<Rightarrow> nat list" where
  "units_of s = map of_char s"

definition ppm_header :: "nat \<Rightarrow> nat \<Rightarrow> nat list" where
  "ppm_header w h =
     units_of (''P6'' @ [CHR 0x0A] @ toString w @ '' '' @ toString h @ [CHR 0x0A] @ ''255'' @ [CHR 0x0A])"

text \<open>\<open>String.fromCharCode(r, g, b)\<close> for the pixel that starts at index \<open>i\<close>.\<close>

definition pixel_units :: "jsnum list \<Rightarrow> nat \<Rightarrow> nat list" where
  "pixel_units td i =
     [sample_unit (js_index td i), sample_unit (js_index td (i + 1)), sample_unit (js_index td (i + 2))]"

text \<open>
  \<open>for (let i = 0; i < frame.tensor_data.length; i += channels) { ... ppmContent += ... }\<close>.
  With \<open>channels = 0\<close> and a non-empty tensor the loop never leaves; not returning is
  the value \<open>None\<close>.
\<close>

partial_function (option) pixel_loop :: "jsnum list \<Rightarrow> nat \<Rightarrow> nat \<Rightarrow> nat list \<Rightarrow> nat list option" where
  "pixel_loop td ch i ppmContent =
     (if i < length td then pixel_loop td ch (i + ch) (ppmContent @ pixel_units td i)
      else Some ppmContent)"

declare pixel_loop.simps [code]

text \<open>The string handed to \<open>writeFileSync\<close> for one frame.\<close>

definition ppm_content :: "payload \<Rightarrow> frame \<Rightarrow> nat list option" where
  "ppm_content p f = pixel_loop (tensor_data f) (channels p) 0 (ppm_header (width p) (height p))"

text \<open>
  \<open>writeFileSync(path, string)\<close> stores the UTF-8 encoding of the string (Node's default
  encoding). Code units below \<open>0x80\<close> take one byte, those below \<open>0x800\<close> two bytes,
  the others three; surrogate pairs cannot occur in \<open>ppmContent\<close>, whose units are all
  below 256.
\<close>

definition utf8_unit :: "nat \<Rightarrow> nat list" where
  "utf8_unit u =
     (if u < 128 then [u]
      else if u < 2048 then [192 + u div 64, 128 + u mod 64]
      else [224 + u div 4096, 128 + (u div 64) mod 64, 128 + u mod 64])"

definition utf8 :: "nat list \<Rightarrow> nat list" where
  "utf8 s = concat (map utf8_unit s)"

section \<open>The file system, the external encoder and the encoding pipeline\<close>

datatype error =
    FetchFailed string
  | NetworkFailed string
  | BadJson
  | RangeError
  | WriteFailed string
  | UnlinkFailed string
  | ExecFailed string
  | ReadFailed string

text \<open>
  The part of the outside world the route touches: the working directory, the files
  (path to bytes), the paths at which \<open>writeFileSync\<close> and \<open>unlinkSync\<close> throw (a missing
  directory, missing permissions), the commands given to \<open>exec\<close> so far, and what
  \<open>console.error\<close> and \<open>console.warn\<close> were given.
\<close>

record world =
  cwd :: string
  files :: "string \<rightharpoonup> nat list"
  write_denied :: "string \<Rightarrow> bool"
  unlink_denied :: "string \<Rightarrow> bool"
  launched :: "string list"
  logged :: "error list"

text \<open>
  The external process is not part of the repository: it is a parameter, any function from
  the command line and the files it finds to a diagnostic (\<open>None\<close> on exit status 0) and
  the files it leaves.
\<close>

type_synonym encoder = "string \<Rightarrow> (string \<rightharpoonup> nat list) \<Rightarrow> string option \<times> (string \<rightharpoonup> nat list)"

text \<open>
  \<open>path.join\<close> on a normalised absolute directory and a plain file name: the separator
  is added unless the directory is the root.
\<close>

definition join :: "string \<Rightarrow> string \<Rightarrow> string" where
  "join d n = (if d = ''/'' then d @ n else d @ ''/'' @ n)"

definition tempDir :: "world \<Rightarrow> string" where
  "tempDir w = join (cwd w) ''temp_frames''"

definition outputPath :: "world \<Rightarrow> string" where
  "outputPath w = join (cwd w) ''temp_video.mp4''"

definition framePath :: "world \<Rightarrow> nat \<Rightarrow> string" where
  "framePath w i = join (tempDir w) (frame_name i)"

definition writeFileSync :: "string \<Rightarrow> nat list \<Rightarrow> world \<Rightarrow> (error + unit) \<times> world" where
  "writeFileSync path s w =
     (if write_denied w path then (Inl (WriteFailed path), w)
      else (Inr (), w\<lparr>files := (files w)(path \<mapsto> utf8 s)\<rparr>))"

definition existsSync :: "world \<Rightarrow> string \<Rightarrow> bool" where
  "existsSync w path = (files w path \<noteq> None)"

definition unlinkSync :: "string \<Rightarrow> world \<Rightarrow> (error + unit) \<times> world" where
  "unlinkSync path w =
     (if unlink_denied w path \<or> files w path = None then (Inl (UnlinkFailed path), w)
      else (Inr (), w\<lparr>files := (files w)(path := None)\<rparr>))"

definition readFileSync :: "string \<Rightarrow> world \<Rightarrow> error + nat list" where
  "readFileSync path w = (case files w path of None \<Rightarrow> Inl (ReadFailed path) | Some b \<Rightarrow> Inr b)"

definition execAsync :: "encoder \<Rightarrow> string \<Rightarrow> world \<Rightarrow> (error + unit) \<times> world" where
  "execAsync enc cmd w =
     (case enc cmd (files w) of
        (diag, fs) \<Rightarrow>
          (case diag of None \<Rightarrow> Inr () | Some d \<Rightarrow> Inl (ExecFailed d),
           w\<lparr>files := fs, launched := launched w @ [cmd]\<rparr>))"

definition ffmpegCommand :: "world \<Rightarrow> string" where
  "ffmpegCommand w =
     ''ffmpeg -y -framerate 30 -i '' @ tempDir w @ ''/frame_%06d.ppm'' @
     '' -c:v libx264 -pix_fmt yuv420p -crf 23 '' @ outputPath w"

text \<open>
  The first loop of the \<open>try\<close> block: frame \<open>frames[frameIndex]\<close> is written under the name
  of its position \<open>frameIndex\<close>. The result is \<open>None\<close> when a pixel loop does not return,
  otherwise the outcome and the world reached.
\<close>

fun stage_frames :: "payload \<Rightarrow> nat \<Rightarrow> frame list \<Rightarrow> world \<Rightarrow> ((error + unit) \<times> world) option" where
  "stage_frames p frameIndex [] w = Some (Inr (), w)"
| "stage_frames p frameIndex (f # fs) w =
     (case ppm_content p f of
        None \<Rightarrow> None
      | Some ppmContent \<Rightarrow>
          (case writeFileSync (framePath w frameIndex) ppmContent w of
             (Inl e, w') \<Rightarrow> Some (Inl e, w')
           | (Inr _, w') \<Rightarrow> stage_frames p (Suc frameIndex) fs w'))"

text \<open>The \<open>try\<close> block: stage the frames, run the encoder, read the output file.\<close>

definition encode_body :: "encoder \<Rightarrow> payload \<Rightarrow> world \<Rightarrow> ((error + nat list) \<times> world) option" where
  "encode_body enc p w =
     (case stage_frames p 0 (frames p) w of
        None \<Rightarrow> None
      | Some (Inl e, w1) \<Rightarrow> Some (Inl e, w1)
      | Some (Inr _, w1) \<Rightarrow>
          (case execAsync enc (ffmpegCommand w1) w1 of
             (Inl e, w2) \<Rightarrow> Some (Inl e, w2)
           | (Inr _, w2) \<Rightarrow> Some (readFileSync (outputPath w2) w2, w2)))"

text \<open>
  The loop of the \<open>finally\<close> block: \<open>if (existsSync(framePath)) unlinkSync(framePath)\<close> for
  each index; the first \<open>unlinkSync\<close> that throws ends the loop.
\<close>

fun remove_frames :: "nat list \<Rightarrow> world \<Rightarrow> (error + unit) \<times> world" where
  "remove_frames [] w = (Inr (), w)"
| "remove_frames (i # is) w =
     (if existsSync w (framePath w i)
      then (case unlinkSync (framePath w i) w of
              (Inl e, w') \<Rightarrow> (Inl e, w')
            | (Inr _, w') \<Rightarrow> remove_frames is w')
      else remove_frames is w)"

definition warn :: "error \<Rightarrow> world \<Rightarrow> world" where
  "warn e w = w\<lparr>logged := logged w @ [e]\<rparr>"

text \<open>The \<open>finally\<close> block: its inner \<open>try\<close>/\<open>catch\<close> turns a thrown error into a warning.\<close>

definition cleanup :: "payload \<Rightarrow> world \<Rightarrow> world" where
  "cleanup p w =
     (case remove_frames [0..<length (frames p)] w of
        (Inl e, w1) \<Rightarrow> warn e w1
      | (Inr _, w1) \<Rightarrow>
          (if existsSync w1 (outputPath w1)
           then (case unlinkSync (outputPath w1) w1 of
                   (Inl e, w2) \<Rightarrow> warn e w2
                 | (Inr _, w2) \<Rightarrow> w2)
           else w1))"

definition convertTensorToVideo :: "encoder \<Rightarrow> payload \<Rightarrow> world \<Rightarrow> ((error + nat list) \<times> world) option" where
  "convertTensorToVideo enc p w =
     (case encode_body enc p w of
        None \<Rightarrow> None
      | Some (r, w1) \<Rightarrow> Some (r, cleanup p w1))"

section \<open>The tensor source: remote retrieval or the generated placeholder\<close>

text \<open>
  What \<open>fetch(url)\<close> can come back with: a rejection (transport failure), or a response
  with its \<open>ok\<close> flag, its \<open>statusText\<close> and the result of \<open>response.json()\<close> (\<open>None\<close> when
  the body does not parse). The network is a parameter, a function from the URL.
\<close>

datatype fetch_outcome = Rejected string | Response bool string "payload option"

definition console_error :: "error \<Rightarrow> world \<Rightarrow> world" where
  "console_error e w = w\<lparr>logged := logged w @ [e]\<rparr>"

text \<open>\<open>fetchTensorData\<close>: every error of its \<open>try\<close> block is logged and thrown again.\<close>

definition fetchTensorData :: "(string \<Rightarrow> fetch_outcome) \<Rightarrow> string \<Rightarrow> world \<Rightarrow> (error + payload) \<times> world" where
  "fetchTensorData net url w =
     (case net url of
        Rejected reason \<Rightarrow> (Inl (NetworkFailed reason), console_error (NetworkFailed reason) w)
      | Response ok statusText body \<Rightarrow>
          (if \<not> ok
           then (Inl (FetchFailed (''Failed to fetch tensor data: '' @ statusText)),
                 console_error (FetchFailed (''Failed to fetch tensor data: '' @ statusText)) w)
           else (case body of
                   None \<Rightarrow> (Inl BadJson, console_error BadJson w)
                 | Some data \<Rightarrow> (Inr data, w))))"

text \<open>
  \<open>new Date(t).toISOString()\<close> for an integral time value \<open>t\<close> in milliseconds since the
  epoch: a \<open>RangeError\<close> (\<open>None\<close>) beyond \<open>8.64e15\<close>, otherwise the UTC calendar date
  and time of day, with a four-digit year from 0 to 9999 and a signed six-digit year
  outside. The definitions are staged so that each is evaluated on a numeral.
\<close>

definition pad :: "nat \<Rightarrow> nat \<Rightarrow> string" where
  "pad w n = padStart w (CHR ''0'') (toString n)"

text \<open>
  The calendar date of a day number (days since 1970-01-01), by the usual computation on
  400-year eras that start on 1 March: day of era, year of era, day of year, month and
  day.
\<close>

definition era_of :: "int \<Rightarrow> int" where
  "era_of z = z div 146097"

definition doe_of :: "int \<Rightarrow> int" where
  "doe_of z = z - era_of z * 146097"

definition yoe_of :: "int \<Rightarrow> int" where
  "yoe_of doe = (doe - doe div 1460 + doe div 36524 - doe div 146096) div 365"

definition doy_of :: "int \<Rightarrow> int" where
  "doy_of doe = doe - (365 * yoe_of doe + yoe_of doe div 4 - yoe_of doe div 100)"

definition mp_of :: "int \<Rightarrow> int" where
  "mp_of doy = (5 * doy + 2) div 153"

definition day_of :: "int \<Rightarrow> int" where
  "day_of doy = doy - (153 * mp_of doy + 2) div 5 + 1"

definition month_of :: "int \<Rightarrow> int" where
  "month_of doy = (if mp_of doy < 10 then mp_of doy + 3 else mp_of doy - 9)"

definition year_of :: "int \<Rightarrow> int" where
  "year_of z =
     yoe_of (doe_of z) + era_of z * 400 + (if month_of (doy_of (doe_of z)) \<le> 2 then 1 else 0)"

definition year_string :: "int \<Rightarrow> string" where
  "year_string y =
     (if 0 \<le> y \<and> y \<le> 9999 then pad 4 (nat y)
      else (if y < 0 then ''-'' else ''+'') @ pad 6 (nat \<bar>y\<bar>))"

definition date_string :: "int \<Rightarrow> string" where
  "date_string days =
     year_string (year_of (days + 719468)) @ ''-'' @
     pad 2 (nat (month_of (doy_of (doe_of (days + 719468))))) @ ''-'' @
     pad 2 (nat (day_of (doy_of (doe_of (days + 719468)))))"

definition time_string :: "int \<Rightarrow> string" where
  "time_string ms =
     pad 2 (nat (ms div 3600000)) @ '':'' @ pad 2 (nat (ms div 60000 mod 60)) @ '':'' @
     pad 2 (nat (ms div 1000 mod 60)) @ ''.'' @ pad 3 (nat (ms mod 1000))"

definition iso_text :: "int \<Rightarrow> string" where
  "iso_text t = date_string (t div 86400000) @ ''T'' @ time_string (t mod 86400000) @ ''Z''"

definition toISOString :: "int \<Rightarrow> string option" where
  "toISOString t = (if \<bar>t\<bar> > 8640000000000000 then None else Some (iso_text t))"

text \<open>\<open>s.includes(t)\<close>: \<open>t\<close> occurs in \<open>s\<close> as a contiguous substring.\<close>

fun includes_str :: "string \<Rightarrow> string \<Rightarrow> bool" where
  "includes_str [] t = (t = [])"
| "includes_str (c # s) t = (take (length t) (c # s) = t \<or> includes_str s t)"

text \<open>
  The three samples of the pixel in column \<open>x\<close> of frame \<open>frameIndex\<close>. The double
  arithmetic and \<open>Math.sin\<close>, \<open>Math.cos\<close> are idealised as the real functions; the spec
  makes the exact pixel values no contract, and no statement below depends on them.
\<close>

definition floor_num :: "real \<Rightarrow> jsnum" where
  "floor_num r = Fin (of_int \<lfloor>r\<rfloor>)"

definition mock_pixel :: "bool \<Rightarrow> nat \<Rightarrow> nat \<Rightarrow> nat \<Rightarrow> jsnum list" where
  "mock_pixel front w x frameIndex =
     (let time = real frameIndex * 0.1;
          normalizedX = real x / real w
      in if front
         then [floor_num (80 + 40 * sin (normalizedX * 3 + time * 0.2)),
               floor_num (90 + 30 * cos (normalizedX * 2 + time * 0.3)),
               floor_num (100 + 25 * sin (normalizedX * 4 + time * 0.1))]
         else [floor_num (120 + 30 * sin (normalizedX * 5 + time * 0.4)),
               floor_num (130 + 25 * cos (normalizedX * 4 + time * 0.3)),
               floor_num (140 + 20 * sin (normalizedX * 6 + time * 0.2))])"

text \<open>
  The tensor of one frame: the two nested loops write the three samples of pixel
  \<open>(x, y)\<close> at \<open>(y * width + x) * channels\<close>, so the rows and pixels follow one another.
\<close>

definition mock_tensor :: "bool \<Rightarrow> nat \<Rightarrow> nat \<Rightarrow> nat \<Rightarrow> jsnum list" where
  "mock_tensor front w h frameIndex =
     concat (map (\<lambda>y. concat (map (\<lambda>x. mock_pixel front w x frameIndex) [0..<w])) [0..<h])"

text \<open>
  \<open>Date.now() + frameIndex * 33\<close>, where \<open>now frameIndex\<close> is what \<open>Date.now()\<close> returns
  when the callback of \<open>Array.from\<close> builds frame \<open>frameIndex\<close>: the clock is read once for
  every frame.
\<close>

definition frame_instant :: "(nat \<Rightarrow> int) \<Rightarrow> nat \<Rightarrow> int" where
  "frame_instant now frameIndex = now frameIndex + int frameIndex * 33"

definition mock_frame :: "(nat \<Rightarrow> int) \<Rightarrow> string \<Rightarrow> nat \<Rightarrow> error + frame" where
  "mock_frame now cameraName frameIndex =
     (case toISOString (frame_instant now frameIndex) of
        None \<Rightarrow> Inl RangeError
      | Some ts \<Rightarrow>
          Inr \<lparr>frame_index = frameIndex, timestamp = ts,
               tensor_data = mock_tensor (includes_str cameraName ''Front'') 320 240 frameIndex,
               frame_width = 320, frame_height = 240, frame_channels = 3\<rparr>)"

text \<open>\<open>Array.from({ length }, callback)\<close> with a callback that may throw.\<close>

fun array_from :: "(nat \<Rightarrow> error + 'a) \<Rightarrow> nat list \<Rightarrow> error + 'a list" where
  "array_from g [] = Inr []"
| "array_from g (i # is) =
     (case g i of
        Inl e \<Rightarrow> Inl e
      | Inr x \<Rightarrow> (case array_from g is of Inl e \<Rightarrow> Inl e | Inr xs \<Rightarrow> Inr (x # xs)))"

definition generateMockTensorData :: "(nat \<Rightarrow> int) \<Rightarrow> string \<Rightarrow> error + payload" where
  "generateMockTensorData now cameraName =
     (case array_from (mock_frame now cameraName) [0..<60] of
        Inl e \<Rightarrow> Inl e
      | Inr videoFrames \<Rightarrow>
          Inr \<lparr>camera_name = cameraName, frames = videoFrames,
               width = 320, height = 240, channels = 3\<rparr>)"

text \<open>
  The route handler. The request body is \<open>None\<close> when \<open>request.json()\<close> rejects;
  \<open>camera_name\<close> defaults to \<open>'Front Camera'\<close>; an absent or empty \<open>tensor_url\<close> is falsy.
  Every error ends in the same response with status 500.
\<close>

record request_body =
  tensor_url :: "string option"
  camera_name_field :: "string option"

datatype response =
    VideoResponse "nat list" "(string \<times> string) list"
  | JsonResponse nat string

definition failure :: "error \<Rightarrow> world \<Rightarrow> response \<times> world" where
  "failure e w = (JsonResponse 500 ''Failed to convert tensor data to video'', console_error e w)"

definition resolve_source :: "(string \<Rightarrow> fetch_outcome) \<Rightarrow> (nat \<Rightarrow> int) \<Rightarrow> request_body \<Rightarrow> world \<Rightarrow> (error + payload) \<times> world" where
  "resolve_source net now body w =
     (case tensor_url body of
        Some (c # url) \<Rightarrow> fetchTensorData net (c # url) w
      | _ \<Rightarrow> (generateMockTensorData now
                 (case camera_name_field body of None \<Rightarrow> ''Front Camera'' | Some n \<Rightarrow> n), w))"

definition POST :: "encoder \<Rightarrow> (string \<Rightarrow> fetch_outcome) \<Rightarrow> (nat \<Rightarrow> int) \<Rightarrow> request_body option \<Rightarrow> world \<Rightarrow> (response \<times> world) option" where
  "POST enc net now request w =
     (case request of
        None \<Rightarrow> Some (failure BadJson w)
      | Some body \<Rightarrow>
          (case resolve_source net now body w of
             (Inl e, w1) \<Rightarrow> Some (failure e w1)
           | (Inr tensorData, w1) \<Rightarrow>
               (case convertTensorToVideo enc tensorData w1 of
                  None \<Rightarrow> None
                | Some (Inl e, w2) \<Rightarrow> Some (failure e w2)
                | Some (Inr videoBuffer, w2) \<Rightarrow>
                    Some (VideoResponse videoBuffer
                            [(''Content-Type'', ''video/mp4''),
                             (''Content-Length'', toString (length videoBuffer)),
                             (''Cache-Control'', ''public, max-age=3600'')], w2))))"

section \<open>Notions used in the statements\<close>

text \<open>
  The number of times the pixel loop runs from index \<open>i\<close> with a positive stride, and the
  code units it appends from index 0: pixel \<open>k\<close> is read at \<open>ch * k\<close>.
\<close>

definition pixel_count :: "nat \<Rightarrow> nat \<Rightarrow> nat \<Rightarrow> nat" where
  "pixel_count len ch i = (len - i + ch - 1) div ch"

definition packed_pixels :: "jsnum list \<Rightarrow> nat \<Rightarrow> nat list" where
  "packed_pixels td ch = concat (map (\<lambda>k. pixel_units td (ch * k)) [0..<pixel_count (length td) ch 0])"

text \<open>The digits of \<open>n\<close> in exactly \<open>k\<close> places, and the number a digit string denotes.\<close>

fun digits_fw :: "nat \<Rightarrow> nat \<Rightarrow> string" where
  "digits_fw 0 n = []"
| "digits_fw (Suc k) n = digits_fw k (n div 10) @ [digit_char (n mod 10)]"

definition dec_val :: "string \<Rightarrow> nat" where
  "dec_val s = foldl (\<lambda>a c. 10 * a + (of_char c - 48)) 0 s"

text \<open>Two worlds with the same working directory and the same denied paths.\<close>

definition same_setting :: "world \<Rightarrow> world \<Rightarrow> bool" where
  "same_setting w w' \<longleftrightarrow> cwd w' = cwd w \<and> write_denied w' = write_denied w \<and> unlink_denied w' = unlink_denied w"

text \<open>A payload with the per-frame \<open>width\<close>, \<open>height\<close> and \<open>channels\<close> fields blanked.\<close>

definition erase_frame_geometry :: "frame \<Rightarrow> frame" where
  "erase_frame_geometry f = f\<lparr>frame_width := 0, frame_height := 0, frame_channels := 0\<rparr>"

definition erase_geometry :: "payload \<Rightarrow> payload" where
  "erase_geometry p = p\<lparr>frames := map erase_frame_geometry (frames p)\<rparr>"

text \<open>
  The instants of all 60 frames are time values that \<open>toISOString\<close> accepts, and a payload
  with the timestamps blanked.
\<close>

definition instants_valid :: "(nat \<Rightarrow> int) \<Rightarrow> bool" where
  "instants_valid now = list_all (\<lambda>i. \<bar>frame_instant now i\<bar> \<le> 8640000000000000) [0..<60]"

definition erase_timestamps :: "payload \<Rightarrow> payload" where
  "erase_timestamps p = p\<lparr>frames := map (\<lambda>f. f\<lparr>timestamp := []\<rparr>) (frames p)\<rparr>"

section \<open>Concrete inputs\<close>

text \<open>
  A payload of one 2-by-2 frame that carries only four samples, out of range in both
  directions and fractional.
\<close>

definition short_frame :: frame where
  "short_frame = \<lparr>frame_index = 0, timestamp = ''1970-01-01T00:00:00.000Z'',
     tensor_data = [Fin 300, Fin (- 5), Fin (7 / 2), Fin 12],
     frame_width = 2, frame_height = 2, frame_channels = 3\<rparr>"

definition short_payload :: payload where
  "short_payload = \<lparr>camera_name = ''Front Camera'', frames = [short_frame],
     width = 2, height = 2, channels = 3\<rparr>"


text \<open>
  An empty staging area where nothing is denied, and one where the first frame file cannot
  be deleted.
\<close>

definition demo_world :: world where
  "demo_world = \<lparr>cwd = ''/srv'', files = Map.empty, write_denied = (\<lambda>_. False),
     unlink_denied = (\<lambda>_. False), launched = [], logged = []\<rparr>"

definition locked_world :: world where
  "locked_world = demo_world\<lparr>unlink_denied := (\<lambda>path. path = ''/srv/temp_frames/frame_000000.ppm'')\<rparr>"

text \<open>
  Three stand-ins for the external process: one that writes a fixed output file, one that
  exits with a failure status, and one whose output is the staged image that comes first in
  file-name order.
\<close>

definition fixed_encoder :: encoder where
  "fixed_encoder cmd fs = (None, fs(''/srv/temp_video.mp4'' \<mapsto> [0, 0, 0, 32]))"

definition failing_encoder :: encoder where
  "failing_encoder cmd fs = (Some ''exit status 1'', fs)"

definition first_image_encoder :: encoder where
  "first_image_encoder cmd fs = (None, fs(''/srv/temp_video.mp4'' := fs ''/srv/temp_frames/frame_000000.ppm''))"

text \<open>A single pixel with a sample above 127.\<close>

definition bright_payload :: payload where
  "bright_payload = \<lparr>camera_name = ''Front Camera'',
     frames = [\<lparr>frame_index = 0, timestamp = ''1970-01-01T00:00:00.000Z'',
                tensor_data = [Fin 200, Fin 0, Fin 0],
                frame_width = 1, frame_height = 1, frame_channels = 3\<rparr>],
     width = 1, height = 1, channels = 3\<rparr>"

text \<open>Two frames whose \<open>frame_index\<close> fields run against their positions.\<close>

definition swapped_payload :: payload where
  "swapped_payload = \<lparr>camera_name = ''Front Camera'',
     frames = [\<lparr>frame_index = 1, timestamp = ''1970-01-01T00:00:00.033Z'',
                tensor_data = [Fin 10, Fin 20, Fin 30],
                frame_width = 1, frame_height = 1, frame_channels = 3\<rparr>,
               \<lparr>frame_index = 0, timestamp = ''1970-01-01T00:00:00.000Z'',
                tensor_data = [Fin 40, Fin 50, Fin 60],
                frame_width = 1, frame_height = 1, frame_channels = 3\<rparr>],
     width = 1, height = 1, channels = 3\<rparr>"

text \<open>\<open>short_payload\<close> with other per-frame geometry fields.\<close>

definition resized_payload :: payload where
  "resized_payload = short_payload\<lparr>frames :=
     [short_frame\<lparr>frame_width := 640, frame_height := 480, frame_channels := 1\<rparr>]\<rparr>"

text \<open>
  A network whose every response is a 404, and three clocks: one that stands still at the
  epoch, one that stands still a millisecond later, and one that ticks once while the
  third frame is built.
\<close>

definition not_found_net :: "string \<Rightarrow> fetch_outcome" where
  "not_found_net url = Response False ''Not Found'' None"

definition epoch_clock :: "nat \<Rightarrow> int" where
  "epoch_clock i = 0"

definition later_clock :: "nat \<Rightarrow> int" where
  "later_clock i = 1"

definition ticking_clock :: "nat \<Rightarrow> int" where
  "ticking_clock i = (if i < 2 then 0 else 1)"

section \<open>The per-sample clamp\<close>

lemma sample_unit_missing: "sample_unit None = 0"
  by (simp add: sample_unit_def clamp_sample_def)

lemma sample_unit_NaN: "sample_unit (Some NaN) = 0"
  by (simp add: sample_unit_def clamp_sample_def)

lemma sample_unit_PosInf: "sample_unit (Some PosInf) = 255"
  by (simp add: sample_unit_def clamp_sample_def)

lemma sample_unit_NegInf: "sample_unit (Some NegInf) = 0"
  by (simp add: sample_unit_def clamp_sample_def)

lemma clamp_sample_Fin: "clamp_sample (Some (Fin q)) = Fin (of_int (max 0 (min 255 \<lfloor>q\<rfloor>)))"
  by (simp add: clamp_sample_def of_int_max of_int_min max_def min_def)

lemma to_uint16_byte: "0 \<le> k \<Longrightarrow> k \<le> 255 \<Longrightarrow> to_uint16 (Fin (of_int k)) = nat k"
  by simp

lemma sample_unit_Fin: "sample_unit (Some (Fin q)) = nat (max 0 (min 255 \<lfloor>q\<rfloor>))"
  unfolding sample_unit_def clamp_sample_Fin by (rule to_uint16_byte) auto

lemma sample_unit_cases:
  "sample_unit v =
     (case v of
        None \<Rightarrow> 0
      | Some (Fin q) \<Rightarrow> nat (max 0 (min 255 \<lfloor>q\<rfloor>))
      | Some PosInf \<Rightarrow> 255
      | Some NegInf \<Rightarrow> 0
      | Some NaN \<Rightarrow> 0)"
  by (simp add: sample_unit_missing sample_unit_NaN sample_unit_PosInf sample_unit_NegInf
      sample_unit_Fin split: option.split jsnum.split)

lemma sample_unit_le: "sample_unit v \<le> 255"
  by (auto simp: sample_unit_cases split: option.split jsnum.split)

lemma js_index_beyond: "length xs \<le> j \<Longrightarrow> js_index xs j = None"
  by (simp add: js_index_def)

lemma js_index_within: "j < length xs \<Longrightarrow> js_index xs j = Some (xs ! j)"
  by (simp add: js_index_def)

section \<open>The pixel loop\<close>

lemma pixel_count_step:
  assumes "0 < ch" "i < len"
  shows "pixel_count len ch i = Suc (pixel_count len ch (i + ch))"
proof -
  obtain m where m: "len - i = Suc m" using assms(2) by (metis Suc_diff_Suc)
  have a: "pixel_count len ch i = (m + ch) div ch" by (simp add: pixel_count_def m)
  have b: "pixel_count len ch (i + ch) = m div ch"
  proof (cases "len \<ge> i + ch")
    case True
    then have "len - (i + ch) + ch - 1 = m" using m by arith
    then show ?thesis by (simp add: pixel_count_def)
  next
    case False
    then have "len - (i + ch) = 0" "m < ch" using m by arith+
    then show ?thesis using assms(1) by (simp add: pixel_count_def)
  qed
  show ?thesis using assms(1) by (simp add: a b)
qed

lemma pixel_count_done: "len \<le> i \<Longrightarrow> 0 < ch \<Longrightarrow> pixel_count len ch i = 0"
  by (simp add: pixel_count_def)

lemma pixel_loop_from:
  assumes "0 < ch"
  shows "pixel_loop td ch i acc =
         Some (acc @ concat (map (\<lambda>k. pixel_units td (i + ch * k)) [0..<pixel_count (length td) ch i]))"
proof (induction "length td - i" arbitrary: i acc rule: less_induct)
  case less
  show ?case
  proof (cases "i < length td")
    case True
    have dec: "length td - (i + ch) < length td - i" using True assms by arith
    have "pixel_loop td ch i acc = pixel_loop td ch (i + ch) (acc @ pixel_units td i)"
      using True by (subst pixel_loop.simps) simp
    also have "\<dots> = Some ((acc @ pixel_units td i) @
        concat (map (\<lambda>k. pixel_units td (i + ch + ch * k)) [0..<pixel_count (length td) ch (i + ch)]))"
      by (rule less[OF dec])
    also have "map (\<lambda>k. pixel_units td (i + ch + ch * k)) [0..<pixel_count (length td) ch (i + ch)]
        = map (\<lambda>k. pixel_units td (i + ch * k)) (map Suc [0..<pixel_count (length td) ch (i + ch)])"
      by (simp add: add.assoc)
    finally show ?thesis
      unfolding pixel_count_step[OF assms True]
      by (simp add: map_Suc_upt upt_conv_Cons del: upt_Suc map_map)
  next
    case False
    then show ?thesis using assms
      by (subst pixel_loop.simps) (simp add: pixel_count_done)
  qed
qed

lemma pixel_loop_packed: "0 < ch \<Longrightarrow> pixel_loop td ch 0 acc = Some (acc @ packed_pixels td ch)"
  by (simp add: pixel_loop_from packed_pixels_def)

lemma ppm_content_packed:
  "0 < channels p \<Longrightarrow>
   ppm_content p f = Some (ppm_header (width p) (height p) @ packed_pixels (tensor_data f) (channels p))"
  by (simp add: ppm_content_def pixel_loop_packed)

lemma pixel_loop_returns:
  assumes "pixel_loop td ch i acc = Some y"
  shows "ch = 0 \<longrightarrow> length td \<le> i"
proof (rule pixel_loop.raw_induct[where P = "\<lambda>td ch i acc y. ch = 0 \<longrightarrow> length td \<le> i", OF _ assms])
  fix pl :: "jsnum list \<Rightarrow> nat \<Rightarrow> nat \<Rightarrow> nat list \<Rightarrow> nat list option"
    and td ch i acc y
  assume IH: "\<And>td ch i acc y. pl td ch i acc = Some y \<Longrightarrow> ch = 0 \<longrightarrow> length td \<le> i"
    and step: "(if i < length td then pl td ch (i + ch) (acc @ pixel_units td i) else Some acc) = Some y"
  show "ch = 0 \<longrightarrow> length td \<le> i"
  proof (cases "i < length td")
    case True
    with step have "pl td ch (i + ch) (acc @ pixel_units td i) = Some y" by simp
    from IH[OF this] show ?thesis by simp
  next
    case False
    then show ?thesis by simp
  qed
qed

lemma pixel_loop_diverges: "i < length td \<Longrightarrow> pixel_loop td 0 i acc = None"
  using pixel_loop_returns[of td 0 i acc] by (cases "pixel_loop td 0 i acc") auto

lemma length_pixel_units: "length (pixel_units td i) = 3"
  by (simp add: pixel_units_def)



lemma nth_concat_triples:
  assumes "\<And>x. length (g x) = 3" "k < length xs" "c < 3"
  shows "concat (map g xs) ! (3 * k + c) = g (xs ! k) ! c"
  using assms(2)
proof (induction xs arbitrary: k)
  case Nil
  then show ?case by simp
next
  case (Cons x xs)
  show ?case
  proof (cases k)
    case 0
    then show ?thesis using assms(1)[of x] assms(3) by (simp add: nth_append)
  next
    case (Suc k')
    then have "k' < length xs" using Cons.prems by simp
    then have "concat (map g xs) ! (3 * k' + c) = g (xs ! k') ! c" by (rule Cons.IH)
    then show ?thesis using Suc assms(1)[of x] by (simp add: nth_append)
  qed
qed

lemma nth_pixel_units:
  "c < 3 \<Longrightarrow> pixel_units td i ! c = sample_unit (js_index td (i + c))"
proof -
  assume "c < 3"
  then consider "c = 0" | "c = 1" | "c = 2" by arith
  then show ?thesis by cases (simp_all add: pixel_units_def)
qed

lemma nth_packed_pixels:
  assumes "k < pixel_count (length td) ch 0" "c < 3"
  shows "packed_pixels td ch ! (3 * k + c) = sample_unit (js_index td (ch * k + c))"
proof -
  have "packed_pixels td ch ! (3 * k + c) = pixel_units td (ch * ([0..<pixel_count (length td) ch 0] ! k)) ! c"
    unfolding packed_pixels_def
    by (rule nth_concat_triples) (simp_all add: length_pixel_units assms)
  then show ?thesis using assms by (simp add: nth_pixel_units)
qed

text \<open>
  The string the pixel loop builds: the code unit for channel \<open>c\<close> of pixel \<open>k\<close> is the clamp
  of the value read at \<open>channels * k + c\<close>; for a finite value \<open>q\<close> it is
  \<open>max 0 (min 255 (floor q))\<close>, for the infinities the same formula read on the extended
  line (255 and 0), and it is 0 for NaN and for a missing value; an index beyond the end of
  the array reads as missing.
\<close>

lemma emitted_unit_is_clamped_floor:
  assumes "0 < channels p"
    and "k < pixel_count (length (tensor_data f)) (channels p) 0"
    and "c < 3"
  shows "map_option (\<lambda>s. s ! (length (ppm_header (width p) (height p)) + 3 * k + c)) (ppm_content p f)
           = Some (sample_unit (js_index (tensor_data f) (channels p * k + c)))
       \<and> sample_unit v =
           (case v of
              None \<Rightarrow> 0
            | Some (Fin q) \<Rightarrow> nat (max 0 (min 255 \<lfloor>q\<rfloor>))
            | Some PosInf \<Rightarrow> 255
            | Some NegInf \<Rightarrow> 0
            | Some NaN \<Rightarrow> 0)
       \<and> (length (tensor_data f) \<le> j \<longrightarrow> js_index (tensor_data f) j = None)"
proof -
  have "map_option (\<lambda>s. s ! (length (ppm_header (width p) (height p)) + 3 * k + c)) (ppm_content p f)
        = Some (packed_pixels (tensor_data f) (channels p) ! (3 * k + c))"
    by (simp add: ppm_content_packed[OF assms(1)] nth_append add.assoc)
  then show ?thesis
    by (simp add: nth_packed_pixels[OF assms(2,3)] sample_unit_cases js_index_beyond)
qed

section \<open>The staged file names\<close>

lemma of_char_digit: "d < 10 \<Longrightarrow> of_char (digit_char d) = 48 + d"
  by (simp add: digit_char_def)

lemma digit_char_less: "d < 10 \<Longrightarrow> e < 10 \<Longrightarrow> digit_char d < digit_char e \<longleftrightarrow> d < e"
  by (simp add: less_char_def of_char_digit)

lemma digit_char_0: "digit_char 0 = CHR ''0''"
  by code_simp

lemma digits_fw_zero: "digits_fw k 0 = replicate k (CHR ''0'')"
  by (induction k) (simp_all add: digit_char_0 replicate_append_same)

lemma length_digits_fw: "length (digits_fw k n) = k"
  by (induction k arbitrary: n) simp_all

lemma toString_small: "n < 10 \<Longrightarrow> toString n = [digit_char n]"
  by (subst toString.simps) simp

lemma toString_large: "\<not> n < 10 \<Longrightarrow> toString n = toString (n div 10) @ [digit_char (n mod 10)]"
  by (subst toString.simps) simp

lemma length_toString_pos: "0 < length (toString n)"
  by (cases "n < 10") (simp_all add: toString_small toString_large)

lemma length_toString_le: "n < 10 ^ Suc k \<Longrightarrow> length (toString n) \<le> Suc k"
proof (induction k arbitrary: n)
  case 0
  then show ?case by (simp add: toString_small)
next
  case (Suc k)
  show ?case
  proof (cases "n < 10")
    case True
    then show ?thesis by (simp add: toString_small)
  next
    case False
    have "n div 10 < 10 ^ Suc k" using Suc.prems by (simp add: less_mult_imp_div_less)
    then have "length (toString (n div 10)) \<le> Suc k" by (rule Suc.IH)
    then show ?thesis using False by (simp add: toString_large)
  qed
qed

lemma padStart_digits_fw:
  "n < 10 ^ Suc k \<Longrightarrow> padStart (Suc k) (CHR ''0'') (toString n) = digits_fw (Suc k) n"
proof (induction k arbitrary: n)
  case 0
  then show ?case by (simp add: toString_small padStart_def)
next
  case (Suc k)
  show ?case
  proof (cases "n < 10")
    case True
    then show ?thesis
      by (simp add: toString_small padStart_def digits_fw_zero digit_char_0 replicate_append_same)
  next
    case False
    have lt: "n div 10 < 10 ^ Suc k" using Suc.prems by (simp add: less_mult_imp_div_less)
    have len: "length (toString (n div 10)) \<le> Suc k" by (rule length_toString_le[OF lt])
    have "padStart (Suc (Suc k)) (CHR ''0'') (toString n)
          = padStart (Suc k) (CHR ''0'') (toString (n div 10)) @ [digit_char (n mod 10)]"
      using False len by (simp add: toString_large padStart_def Suc_diff_le)
    then show ?thesis using Suc.IH[OF lt] by simp
  qed
qed

lemma lex_append_same_length:
  fixes u v :: "'a::linorder list"
  shows "length u = length v \<Longrightarrow> (u @ s < v @ t) \<longleftrightarrow> (u < v \<or> u = v \<and> s < t)"
  by (induction u v rule: list_induct2) auto

lemma less_by_digits:
  fixes qa ra qb rb :: nat
  shows "ra < 10 \<Longrightarrow> rb < 10 \<Longrightarrow> (10 * qa + ra < 10 * qb + rb) \<longleftrightarrow> (qa < qb \<or> qa = qb \<and> ra < rb)"
  by arith

lemma less_div_mod_10: "(a < (b::nat)) \<longleftrightarrow> (a div 10 < b div 10 \<or> a div 10 = b div 10 \<and> a mod 10 < b mod 10)"
proof -
  have "(a < b) \<longleftrightarrow> (10 * (a div 10) + a mod 10 < 10 * (b div 10) + b mod 10)"
    by simp
  also have "\<dots> \<longleftrightarrow> (a div 10 < b div 10 \<or> a div 10 = b div 10 \<and> a mod 10 < b mod 10)"
    by (rule less_by_digits) simp_all
  finally show ?thesis .
qed

lemma div_10_less: "(a::nat) < 10 ^ Suc k \<Longrightarrow> a div 10 < 10 ^ k"
  by (simp add: less_mult_imp_div_less)

lemma digits_fw_less:
  "a < 10 ^ k \<Longrightarrow> b < 10 ^ k \<Longrightarrow> (digits_fw k a < digits_fw k b) \<longleftrightarrow> a < b"
proof (induction k arbitrary: a b)
  case 0
  then show ?case by simp
next
  case (Suc k)
  have la: "a div 10 < 10 ^ k" by (rule div_10_less[OF Suc.prems(1)])
  have lb: "b div 10 < 10 ^ k" by (rule div_10_less[OF Suc.prems(2)])
  have lt: "(digits_fw k (a div 10) < digits_fw k (b div 10)) \<longleftrightarrow> a div 10 < b div 10"
    by (rule Suc.IH[OF la lb])
  have gt: "(digits_fw k (b div 10) < digits_fw k (a div 10)) \<longleftrightarrow> b div 10 < a div 10"
    by (rule Suc.IH[OF lb la])
  have "digits_fw k (a div 10) \<noteq> digits_fw k (b div 10) \<longleftrightarrow> a div 10 \<noteq> b div 10"
    unfolding linorder_neq_iff lt gt ..
  then have eq: "digits_fw k (a div 10) = digits_fw k (b div 10) \<longleftrightarrow> a div 10 = b div 10"
    by blast
  have ma: "a mod 10 < 10" and mb: "b mod 10 < 10" by simp_all
  have "(digits_fw (Suc k) a < digits_fw (Suc k) b)
        \<longleftrightarrow> (a div 10 < b div 10 \<or> a div 10 = b div 10 \<and> a mod 10 < b mod 10)"
    by (simp add: lex_append_same_length length_digits_fw lt eq digit_char_less[OF ma mb])
  then show ?case by (simp only: less_div_mod_10[of a b])
qed

lemma frame_name_fw: "i < 1000000 \<Longrightarrow> frame_name i = ''frame_'' @ digits_fw 6 i @ ''.ppm''"
  using padStart_digits_fw[of i 5] by (simp add: frame_name_def)

lemma dec_val_snoc: "dec_val (s @ [c]) = 10 * dec_val s + (of_char c - 48)"
  by (simp add: dec_val_def)

lemma dec_val_toString: "dec_val (toString n) = n"
proof (induction n rule: toString.induct)
  case (1 n)
  show ?case
  proof (cases "n < 10")
    case True
    then show ?thesis by (simp add: toString_small dec_val_def of_char_digit)
  next
    case False
    then show ?thesis using 1
      by (simp add: toString_large dec_val_snoc of_char_digit)
  qed
qed

lemma dec_val_zeros: "dec_val (replicate k (CHR ''0'') @ s) = dec_val s"
proof -
  have "foldl (\<lambda>a c. 10 * a + (of_char c - 48)) 0 (replicate k (CHR ''0'')) = (0::nat)"
    by (induction k) simp_all
  then show ?thesis by (simp add: dec_val_def)
qed

lemma frame_name_inj: "frame_name i = frame_name j \<Longrightarrow> i = j"
proof -
  assume "frame_name i = frame_name j"
  then have "padStart 6 (CHR ''0'') (toString i) = padStart 6 (CHR ''0'') (toString j)"
    by (simp add: frame_name_def)
  then have "dec_val (padStart 6 (CHR ''0'') (toString i)) = dec_val (padStart 6 (CHR ''0'') (toString j))"
    by simp
  then show "i = j" by (simp add: padStart_def dec_val_zeros dec_val_toString)
qed

text \<open>
  C7, as amended. The staged file name is a function of the frame's position, and for
  positions below 1000000 (so for any payload of at most a million frames, among them
  those of 1000 and more) the lexical order of the names is the order of the positions.
\<close>

theorem frame_name_order:
  assumes "i < 1000000" "j < 1000000"
  shows "(frame_name i < frame_name j) \<longleftrightarrow> i < j"
proof -
  have "(frame_name i < frame_name j) \<longleftrightarrow> (digits_fw 6 i @ ''.ppm'' < digits_fw 6 j @ ''.ppm'')"
    unfolding frame_name_fw[OF assms(1)] frame_name_fw[OF assms(2)]
    using lex_append_same_length[of "''frame_''" "''frame_''"] by simp
  also have "\<dots> \<longleftrightarrow> digits_fw 6 i < digits_fw 6 j"
    by (simp add: lex_append_same_length length_digits_fw)
  also have "\<dots> \<longleftrightarrow> i < j"
    using digits_fw_less[of i 6 j] assms by simp
  finally show ?thesis .
qed

theorem frame_name_order_witness:
  "(999::nat) < 1000000 \<and> (1000::nat) < 1000000 \<and> frame_name 999 < frame_name 1000"
  using frame_name_order[of 999 1000] by simp

text \<open>
  C7 as stated fails beyond six digits: the name of position 1000000 has seven digits
  and sorts before the name of position 999999.
\<close>

theorem frame_name_order_counterexample:
  "\<not> ((999999::nat) < 1000000 \<longleftrightarrow> frame_name 999999 < frame_name 1000000)"
proof -
  have "frame_name 1000000 < frame_name 999999"
    by (simp add: frame_name_def padStart_def toString.simps digit_char_def less_char_def)
  then show ?thesis by (simp add: not_less_iff_gr_or_eq)
qed

section \<open>The number of pixels\<close>



section \<open>The bytes of a staged image\<close>

lemma packed_pixels_units: "u \<in> set (packed_pixels td ch) \<Longrightarrow> u < 256"
proof -
  assume "u \<in> set (packed_pixels td ch)"
  then obtain k where "u \<in> set (pixel_units td (ch * k))"
    by (auto simp: packed_pixels_def)
  then obtain v where "u = sample_unit v" by (auto simp: pixel_units_def)
  then show ?thesis using sample_unit_le[of v] by simp
qed

lemma ppm_content_units:
  assumes "0 < channels p" "ppm_content p f = Some s" "u \<in> set s"
  shows "u < 256"
proof -
  have "s = ppm_header (width p) (height p) @ packed_pixels (tensor_data f) (channels p)"
    using assms(2) by (simp add: ppm_content_packed[OF assms(1)])
  then have "u \<in> set (ppm_header (width p) (height p)) \<or> u \<in> set (packed_pixels (tensor_data f) (channels p))"
    using assms(3) by simp
  then show ?thesis
  proof
    assume "u \<in> set (ppm_header (width p) (height p))"
    then show ?thesis by (auto simp: ppm_header_def units_of_def)
  next
    assume "u \<in> set (packed_pixels (tensor_data f) (channels p))"
    then show ?thesis by (rule packed_pixels_units)
  qed
qed

text \<open>
  C3. The string handed to \<open>writeFileSync\<close> has one code unit for each sample, but the
  file holds its UTF-8 encoding: the sample 200 of this one-pixel frame is stored as the
  two bytes 195 and 136, and the body of the file has four bytes for three samples.
\<close>

theorem bright_sample_written_as_two_bytes:
  "ppm_content bright_payload (hd (frames bright_payload))
     = Some [80, 54, 10, 49, 32, 49, 10, 50, 53, 53, 10, 200, 0, 0]
   \<and> map_option fst (stage_frames bright_payload 0 (frames bright_payload) demo_world) = Some (Inr ())
   \<and> files (snd (the (stage_frames bright_payload 0 (frames bright_payload) demo_world)))
        ''/srv/temp_frames/frame_000000.ppm''
     = Some [80, 54, 10, 49, 32, 49, 10, 50, 53, 53, 10, 195, 136, 0, 0]"
  by code_simp

text \<open>
  C1. The sample of this one-pixel frame is 200 and its clamp is 200, but the staged image
  does not hold the byte 200 for it: at the sample's offset, right after the header of 11
  bytes, the file holds 195, then 136, and it is 15 bytes long. The clamp is what the pixel
  loop appends to the string; what is emitted into the staged image is the UTF-8 encoding
  of that string.
\<close>

theorem clamped_sample_not_staged_as_byte:
  "sample_unit (js_index (tensor_data (hd (frames bright_payload))) 0) = 200
   \<and> nat (max 0 (min 255 \<lfloor>200 :: rat\<rfloor>)) = 200
   \<and> map_option fst (stage_frames bright_payload 0 (frames bright_payload) demo_world) = Some (Inr ())
   \<and> length (ppm_header (width bright_payload) (height bright_payload)) = 11
   \<and> the (files (snd (the (stage_frames bright_payload 0 (frames bright_payload) demo_world)))
        ''/srv/temp_frames/frame_000000.ppm'') ! 11 = 195
   \<and> the (files (snd (the (stage_frames bright_payload 0 (frames bright_payload) demo_world)))
        ''/srv/temp_frames/frame_000000.ppm'') ! 12 = 136
   \<and> length (the (files (snd (the (stage_frames bright_payload 0 (frames bright_payload) demo_world)))
        ''/srv/temp_frames/frame_000000.ppm'')) = 15"
  by code_simp

section \<open>Staging\<close>

lemma framePath_cwd: "cwd w' = cwd w \<Longrightarrow> framePath w' i = framePath w i"
  by (simp add: framePath_def tempDir_def)

lemma outputPath_cwd: "cwd w' = cwd w \<Longrightarrow> outputPath w' = outputPath w"
  by (simp add: outputPath_def)

lemma ffmpegCommand_cwd: "cwd w' = cwd w \<Longrightarrow> ffmpegCommand w' = ffmpegCommand w"
  by (simp add: ffmpegCommand_def outputPath_def tempDir_def)

lemma framePath_same: "cwd w' = cwd w \<Longrightarrow> framePath w' = framePath w"
  by (rule ext) (rule framePath_cwd)

lemma framePath_inj: "framePath w i = framePath w j \<Longrightarrow> i = j"
  by (auto simp: framePath_def join_def dest: frame_name_inj split: if_splits)

lemma tempDir_not_root: "tempDir w \<noteq> ''/''"
  by (auto simp: tempDir_def join_def dest: arg_cong[where f = length])

lemma framePath_not_output: "framePath w i \<noteq> outputPath w"
proof (cases "cwd w = ''/''")
  case True
  then show ?thesis by (simp add: framePath_def outputPath_def tempDir_def join_def)
next
  case False
  have "framePath w i = cwd w @ ''/temp_frames/'' @ frame_name i"
    using False tempDir_not_root[of w] by (simp add: framePath_def tempDir_def join_def)
  moreover have "outputPath w = cwd w @ ''/temp_video.mp4''"
    using False by (simp add: outputPath_def join_def)
  ultimately show ?thesis by simp
qed

lemma same_setting_refl: "same_setting w w"
  by (simp add: same_setting_def)

lemma same_setting_trans: "same_setting w w1 \<Longrightarrow> same_setting w1 w2 \<Longrightarrow> same_setting w w2"
  by (simp add: same_setting_def)

lemma writeFileSync_cases:
  "writeFileSync path s w = (r, w') \<Longrightarrow>
     (write_denied w path \<and> r = Inl (WriteFailed path) \<and> w' = w) \<or>
     (\<not> write_denied w path \<and> r = Inr () \<and> w' = w\<lparr>files := (files w)(path \<mapsto> utf8 s)\<rparr>)"
  by (auto simp: writeFileSync_def split: if_splits)

lemma stage_frames_setting:
  "stage_frames p i fs w = Some (r, w') \<Longrightarrow>
     same_setting w w' \<and> launched w' = launched w \<and> logged w' = logged w"
proof (induction fs arbitrary: i w)
  case Nil
  then show ?case by (simp add: same_setting_def)
next
  case (Cons f fs)
  from Cons.prems obtain s where s: "ppm_content p f = Some s"
    by (cases "ppm_content p f") simp_all
  obtain r1 w1 where w1: "writeFileSync (framePath w i) s w = (r1, w1)"
    by (cases "writeFileSync (framePath w i) s w")
  from writeFileSync_cases[OF w1] show ?case
  proof
    assume "write_denied w (framePath w i) \<and> r1 = Inl (WriteFailed (framePath w i)) \<and> w1 = w"
    then show ?thesis using Cons.prems s w1 by (simp add: same_setting_def)
  next
    assume a: "\<not> write_denied w (framePath w i) \<and> r1 = Inr () \<and> w1 = w\<lparr>files := (files w)(framePath w i \<mapsto> utf8 s)\<rparr>"
    then have "stage_frames p (Suc i) fs w1 = Some (r, w')" using Cons.prems s w1 by simp
    from Cons.IH[OF this] show ?thesis using a by (simp add: same_setting_def)
  qed
qed

lemma stage_frames_untouched:
  "stage_frames p i fs w = Some (r, w') \<Longrightarrow> path \<notin> framePath w ` {i..<i + length fs} \<Longrightarrow>
     files w' path = files w path"
proof (induction fs arbitrary: i w)
  case Nil
  then show ?case by simp
next
  case (Cons f fs)
  from Cons.prems(1) obtain s where s: "ppm_content p f = Some s"
    by (cases "ppm_content p f") simp_all
  obtain r1 w1 where w1: "writeFileSync (framePath w i) s w = (r1, w1)"
    by (cases "writeFileSync (framePath w i) s w")
  have ne: "path \<noteq> framePath w i" using Cons.prems(2) by auto
  from writeFileSync_cases[OF w1] show ?case
  proof
    assume "write_denied w (framePath w i) \<and> r1 = Inl (WriteFailed (framePath w i)) \<and> w1 = w"
    then show ?thesis using Cons.prems s w1 by simp
  next
    assume a: "\<not> write_denied w (framePath w i) \<and> r1 = Inr () \<and> w1 = w\<lparr>files := (files w)(framePath w i \<mapsto> utf8 s)\<rparr>"
    then have st: "stage_frames p (Suc i) fs w1 = Some (r, w')" using Cons.prems s w1 by simp
    have fp: "framePath w1 = framePath w" using a by (intro framePath_same) simp
    have "{Suc i..<Suc i + length fs} \<subseteq> {i..<i + length (f # fs)}" by auto
    then have "path \<notin> framePath w1 ` {Suc i..<Suc i + length fs}"
      using Cons.prems(2) unfolding fp by blast
    from Cons.IH[OF st this] show ?thesis using a ne by simp
  qed
qed

lemma stage_frames_written:
  assumes "stage_frames p i fs w = Some (Inr (), w')" "k < length fs"
  shows "files w' (framePath w (i + k)) = map_option utf8 (ppm_content p (fs ! k))"
  using assms
proof (induction fs arbitrary: i w k)
  case Nil
  then show ?case by simp
next
  case (Cons f fs)
  from Cons.prems(1) obtain s where s: "ppm_content p f = Some s"
    by (cases "ppm_content p f") simp_all
  obtain r1 w1 where w1: "writeFileSync (framePath w i) s w = (r1, w1)"
    by (cases "writeFileSync (framePath w i) s w")
  from writeFileSync_cases[OF w1] show ?case
  proof
    assume "write_denied w (framePath w i) \<and> r1 = Inl (WriteFailed (framePath w i)) \<and> w1 = w"
    then show ?thesis using Cons.prems s w1 by simp
  next
    assume a: "\<not> write_denied w (framePath w i) \<and> r1 = Inr () \<and> w1 = w\<lparr>files := (files w)(framePath w i \<mapsto> utf8 s)\<rparr>"
    then have st: "stage_frames p (Suc i) fs w1 = Some (Inr (), w')" using Cons.prems s w1 by simp
    have fp: "framePath w1 = framePath w" using a by (intro framePath_same) simp
    show ?thesis
    proof (cases k)
      case 0
      have "framePath w i \<notin> framePath w1 ` {Suc i..<Suc i + length fs}"
        unfolding fp by (auto dest: framePath_inj)
      from stage_frames_untouched[OF st this] show ?thesis using a s 0 by simp
    next
      case (Suc k')
      then have "k' < length fs" using Cons.prems(2) by simp
      from Cons.IH[OF st this] show ?thesis using Suc by (simp add: fp)
    qed
  qed
qed

lemma stage_frames_returns:
  "0 < channels p \<Longrightarrow> \<exists>r w'. stage_frames p i fs w = Some (r, w')"
proof (induction fs arbitrary: i w)
  case Nil
  then show ?case by simp
next
  case (Cons f fs)
  obtain r1 w1
    where w1: "writeFileSync (framePath w i) (ppm_header (width p) (height p) @ packed_pixels (tensor_data f) (channels p)) w = (r1, w1)"
    by (cases "writeFileSync (framePath w i) (ppm_header (width p) (height p) @ packed_pixels (tensor_data f) (channels p)) w")
  show ?case
  proof (cases r1)
    case (Inl e)
    then show ?thesis using w1 Cons.prems by (simp add: ppm_content_packed)
  next
    case (Inr u)
    then show ?thesis using w1 Cons.prems Cons.IH[of "Suc i" w1] by (simp add: ppm_content_packed)
  qed
qed

lemma stage_frames_permitted:
  "0 < channels p \<Longrightarrow> (\<And>path. \<not> write_denied w path) \<Longrightarrow> \<exists>w'. stage_frames p i fs w = Some (Inr (), w')"
proof (induction fs arbitrary: i w)
  case Nil
  then show ?case by simp
next
  case (Cons f fs)
  let ?w1 = "w\<lparr>files := (files w)(framePath w i \<mapsto> utf8 (ppm_header (width p) (height p) @ packed_pixels (tensor_data f) (channels p)))\<rparr>"
  have "\<exists>w'. stage_frames p (Suc i) fs ?w1 = Some (Inr (), w')"
    by (rule Cons.IH) (simp_all add: Cons.prems)
  then show ?case using Cons.prems by (simp add: ppm_content_packed writeFileSync_def)
qed

section \<open>Cleanup\<close>

lemma unlinkSync_cases:
  "unlinkSync path w = (r, w') \<Longrightarrow>
     ((unlink_denied w path \<or> files w path = None) \<and> r = Inl (UnlinkFailed path) \<and> w' = w) \<or>
     (\<not> unlink_denied w path \<and> files w path \<noteq> None \<and> r = Inr () \<and> w' = w\<lparr>files := (files w)(path := None)\<rparr>)"
  by (auto simp: unlinkSync_def split: if_splits)

lemma remove_frames_setting:
  "remove_frames is w = (r, w') \<Longrightarrow>
     same_setting w w' \<and> launched w' = launched w \<and> logged w' = logged w"
proof (induction "is" arbitrary: w)
  case Nil
  then show ?case by (simp add: same_setting_def)
next
  case (Cons i "is")
  show ?case
  proof (cases "existsSync w (framePath w i)")
    case False
    then show ?thesis using Cons by simp
  next
    case True
    obtain r1 w1 where u: "unlinkSync (framePath w i) w = (r1, w1)"
      by (cases "unlinkSync (framePath w i) w")
    from unlinkSync_cases[OF u] show ?thesis
    proof
      assume "(unlink_denied w (framePath w i) \<or> files w (framePath w i) = None) \<and> r1 = Inl (UnlinkFailed (framePath w i)) \<and> w1 = w"
      then show ?thesis using Cons.prems True u by (simp add: same_setting_def)
    next
      assume a: "\<not> unlink_denied w (framePath w i) \<and> files w (framePath w i) \<noteq> None \<and> r1 = Inr () \<and> w1 = w\<lparr>files := (files w)(framePath w i := None)\<rparr>"
      then have "remove_frames is w1 = (r, w')" using Cons.prems True u by simp
      from Cons.IH[OF this] show ?thesis using a by (simp add: same_setting_def)
    qed
  qed
qed

lemma remove_frames_no_new:
  "remove_frames is w = (r, w') \<Longrightarrow> files w path = None \<Longrightarrow> files w' path = None"
proof (induction "is" arbitrary: w)
  case Nil
  then show ?case by simp
next
  case (Cons i "is")
  show ?case
  proof (cases "existsSync w (framePath w i)")
    case False
    then show ?thesis using Cons by simp
  next
    case True
    obtain r1 w1 where u: "unlinkSync (framePath w i) w = (r1, w1)"
      by (cases "unlinkSync (framePath w i) w")
    from unlinkSync_cases[OF u] show ?thesis
    proof
      assume "(unlink_denied w (framePath w i) \<or> files w (framePath w i) = None) \<and> r1 = Inl (UnlinkFailed (framePath w i)) \<and> w1 = w"
      then show ?thesis using Cons.prems True u by simp
    next
      assume a: "\<not> unlink_denied w (framePath w i) \<and> files w (framePath w i) \<noteq> None \<and> r1 = Inr () \<and> w1 = w\<lparr>files := (files w)(framePath w i := None)\<rparr>"
      then have st: "remove_frames is w1 = (r, w')" using Cons.prems True u by simp
      have "files w1 path = None" using a Cons.prems(2) by simp
      from Cons.IH[OF st this] show ?thesis .
    qed
  qed
qed

lemma remove_frames_other:
  "remove_frames is w = (r, w') \<Longrightarrow> path \<notin> framePath w ` set is \<Longrightarrow> files w' path = files w path"
proof (induction "is" arbitrary: w)
  case Nil
  then show ?case by simp
next
  case (Cons i "is")
  have ne: "path \<noteq> framePath w i" and rest: "path \<notin> framePath w ` set is"
    using Cons.prems(2) by auto
  show ?case
  proof (cases "existsSync w (framePath w i)")
    case False
    then show ?thesis using Cons.prems(1) Cons.IH[of w] rest by simp
  next
    case True
    obtain r1 w1 where u: "unlinkSync (framePath w i) w = (r1, w1)"
      by (cases "unlinkSync (framePath w i) w")
    from unlinkSync_cases[OF u] show ?thesis
    proof
      assume "(unlink_denied w (framePath w i) \<or> files w (framePath w i) = None) \<and> r1 = Inl (UnlinkFailed (framePath w i)) \<and> w1 = w"
      then show ?thesis using Cons.prems True u by simp
    next
      assume a: "\<not> unlink_denied w (framePath w i) \<and> files w (framePath w i) \<noteq> None \<and> r1 = Inr () \<and> w1 = w\<lparr>files := (files w)(framePath w i := None)\<rparr>"
      then have st: "remove_frames is w1 = (r, w')" using Cons.prems True u by simp
      have fp: "framePath w1 = framePath w" using a by (intro framePath_same) simp
      have "files w' path = files w1 path" using Cons.IH[OF st] rest unfolding fp by simp
      then show ?thesis using a ne by simp
    qed
  qed
qed

lemma remove_frames_done:
  assumes "\<And>i. i \<in> set is \<Longrightarrow> \<not> unlink_denied w (framePath w i)"
  shows "\<exists>w'. remove_frames is w = (Inr (), w') \<and> (\<forall>i\<in>set is. files w' (framePath w i) = None)"
  using assms
proof (induction "is" arbitrary: w)
  case Nil
  then show ?case by simp
next
  case (Cons i "is")
  show ?case
  proof (cases "existsSync w (framePath w i)")
    case False
    have "\<exists>w'. remove_frames is w = (Inr (), w') \<and> (\<forall>i\<in>set is. files w' (framePath w i) = None)"
      by (rule Cons.IH) (simp add: Cons.prems)
    then obtain w' where w': "remove_frames is w = (Inr (), w')" "\<forall>i\<in>set is. files w' (framePath w i) = None"
      by blast
    have "files w' (framePath w i) = None"
      using remove_frames_no_new[OF w'(1)] False by (simp add: existsSync_def)
    then show ?thesis using False w' by simp
  next
    case True
    let ?w1 = "w\<lparr>files := (files w)(framePath w i := None)\<rparr>"
    have fp: "framePath ?w1 = framePath w" by (intro framePath_same) simp
    have "\<exists>w'. remove_frames is ?w1 = (Inr (), w') \<and> (\<forall>i\<in>set is. files w' (framePath ?w1 i) = None)"
      by (rule Cons.IH) (simp add: Cons.prems fp)
    then obtain w' where w': "remove_frames is ?w1 = (Inr (), w')" "\<forall>i\<in>set is. files w' (framePath w i) = None"
      unfolding fp by blast
    have "files w' (framePath w i) = None"
      using remove_frames_no_new[OF w'(1), of "framePath w i"] by simp
    moreover have "unlinkSync (framePath w i) w = (Inr (), ?w1)"
      using True Cons.prems[of i] by (simp add: unlinkSync_def existsSync_def)
    ultimately show ?thesis using True w' by simp
  qed
qed

lemma cleanup_setting: "same_setting w (cleanup p w) \<and> launched (cleanup p w) = launched w"
proof -
  obtain r1 w1 where r: "remove_frames [0..<length (frames p)] w = (r1, w1)"
    by (cases "remove_frames [0..<length (frames p)] w")
  note s1 = remove_frames_setting[OF r]
  obtain r2 w2 where u: "unlinkSync (outputPath w1) w1 = (r2, w2)"
    by (cases "unlinkSync (outputPath w1) w1")
  have s2: "same_setting w1 w2 \<and> launched w2 = launched w1"
    using unlinkSync_cases[OF u] by (auto simp: same_setting_def)
  show ?thesis
    using r u s1 s2
    by (auto simp: cleanup_def warn_def same_setting_def split: sum.splits)
qed

lemma cleanup_done:
  assumes "\<And>i. i < length (frames p) \<Longrightarrow> \<not> unlink_denied w (framePath w i)"
    and "\<not> unlink_denied w (outputPath w)"
  shows "(\<forall>i<length (frames p). files (cleanup p w) (framePath w i) = None)
       \<and> files (cleanup p w) (outputPath w) = None
       \<and> logged (cleanup p w) = logged w"
proof -
  have "\<exists>w1. remove_frames [0..<length (frames p)] w = (Inr (), w1)
          \<and> (\<forall>i\<in>set [0..<length (frames p)]. files w1 (framePath w i) = None)"
    by (rule remove_frames_done) (simp add: assms(1))
  then obtain w1 where w1: "remove_frames [0..<length (frames p)] w = (Inr (), w1)"
    "\<forall>i<length (frames p). files w1 (framePath w i) = None" by auto
  note s1 = remove_frames_setting[OF w1(1)]
  have op: "outputPath w1 = outputPath w" using s1 by (intro outputPath_cwd) (simp add: same_setting_def)
  have ud: "\<not> unlink_denied w1 (outputPath w)" using s1 assms(2) by (simp add: same_setting_def)
  show ?thesis
  proof (cases "existsSync w1 (outputPath w)")
    case False
    then show ?thesis using w1 s1 by (simp add: cleanup_def op existsSync_def)
  next
    case True
    then show ?thesis using w1 s1 ud
      by (auto simp: cleanup_def op existsSync_def unlinkSync_def framePath_not_output)
  qed
qed

lemma execAsync_cases:
  "execAsync enc cmd w = (r, w') \<Longrightarrow>
     w' = w\<lparr>files := snd (enc cmd (files w)), launched := launched w @ [cmd]\<rparr> \<and>
     r = (case fst (enc cmd (files w)) of None \<Rightarrow> Inr () | Some d \<Rightarrow> Inl (ExecFailed d))"
  by (auto simp: execAsync_def split: prod.splits)

lemma encode_body_setting:
  assumes "encode_body enc p w = Some (r, w1)"
  shows "same_setting w w1"
proof -
  from assms obtain r0 w0 where st: "stage_frames p 0 (frames p) w = Some (r0, w0)"
    by (cases "stage_frames p 0 (frames p) w") (auto simp: encode_body_def)
  note s0 = stage_frames_setting[OF st]
  show ?thesis
  proof (cases r0)
    case (Inl e)
    then show ?thesis using assms st s0 by (simp add: encode_body_def)
  next
    case (Inr u)
    obtain r2 w2 where ex: "execAsync enc (ffmpegCommand w0) w0 = (r2, w2)"
      by (cases "execAsync enc (ffmpegCommand w0) w0")
    have "same_setting w0 w2" using execAsync_cases[OF ex] by (simp add: same_setting_def)
    then have "same_setting w w2" using s0 same_setting_trans by blast
    moreover have "w1 = w2" using assms st Inr ex by (auto simp: encode_body_def split: sum.splits)
    ultimately show ?thesis by simp
  qed
qed

text \<open>
  C4, as amended. With a positive channel count the encoder returns. Whenever it returns,
  it returns the outcome of the \<open>try\<close> block unchanged, success value or error, and the
  \<open>finally\<close> block has run on the world the \<open>try\<close> block left: a failure of the cleanup is
  only logged. If none of the frame files of the index range and not the output file is
  denied deletion, none of them exists afterwards, whether it existed before or not.
\<close>

theorem cleanup_on_every_exit:
  "(0 < channels p \<longrightarrow> convertTensorToVideo enc p w \<noteq> None)
   \<and> (\<forall>r w'. convertTensorToVideo enc p w = Some (r, w') \<longrightarrow>
         (\<exists>w1. encode_body enc p w = Some (r, w1) \<and> w' = cleanup p w1)
         \<and> ((\<forall>i<length (frames p). \<not> unlink_denied w (framePath w i)) \<and> \<not> unlink_denied w (outputPath w)
              \<longrightarrow> (\<forall>i<length (frames p). files w' (framePath w i) = None) \<and> files w' (outputPath w) = None))"
proof -
  have returns: "0 < channels p \<longrightarrow> convertTensorToVideo enc p w \<noteq> None"
  proof
    assume "0 < channels p"
    from stage_frames_returns[OF this, of 0 "frames p" w]
    show "convertTensorToVideo enc p w \<noteq> None"
      by (auto simp: convertTensorToVideo_def encode_body_def split: sum.splits prod.splits)
  qed
  have outcome: "(\<exists>w1. encode_body enc p w = Some (r, w1) \<and> w' = cleanup p w1)
         \<and> ((\<forall>i<length (frames p). \<not> unlink_denied w (framePath w i)) \<and> \<not> unlink_denied w (outputPath w)
              \<longrightarrow> (\<forall>i<length (frames p). files w' (framePath w i) = None) \<and> files w' (outputPath w) = None)"
    if conv: "convertTensorToVideo enc p w = Some (r, w')" for r w'
  proof -
    from conv obtain w1 where b: "encode_body enc p w = Some (r, w1)" and w': "w' = cleanup p w1"
      by (cases "encode_body enc p w") (auto simp: convertTensorToVideo_def)
    have s: "same_setting w w1" by (rule encode_body_setting[OF b])
    have fp: "framePath w1 = framePath w" using s by (intro framePath_same) (simp add: same_setting_def)
    have op: "outputPath w1 = outputPath w" using s by (intro outputPath_cwd) (simp add: same_setting_def)
    have ud: "unlink_denied w1 = unlink_denied w" using s by (simp add: same_setting_def)
    have gone: "(\<forall>i<length (frames p). files w' (framePath w i) = None) \<and> files w' (outputPath w) = None"
      if h1: "\<forall>i<length (frames p). \<not> unlink_denied w (framePath w i)"
        and h2: "\<not> unlink_denied w (outputPath w)"
    proof -
      have "(\<forall>i<length (frames p). files (cleanup p w1) (framePath w1 i) = None)
          \<and> files (cleanup p w1) (outputPath w1) = None
          \<and> logged (cleanup p w1) = logged w1"
      proof (rule cleanup_done)
        fix i assume "i < length (frames p)"
        then show "\<not> unlink_denied w1 (framePath w1 i)" using h1 by (simp add: fp ud)
      next
        show "\<not> unlink_denied w1 (outputPath w1)" using h2 by (simp add: op ud)
      qed
      then show ?thesis by (simp add: fp op w')
    qed
    have "\<exists>w1. encode_body enc p w = Some (r, w1) \<and> w' = cleanup p w1"
      using b w' by (intro exI conjI)
    then show ?thesis using gone by (intro conjI impI) simp_all
  qed
  show ?thesis
  proof (rule conjI[OF returns], intro allI impI)
    fix r w'
    assume "convertTensorToVideo enc p w = Some (r, w')"
    from outcome[OF this]
    show "(\<exists>w1. encode_body enc p w = Some (r, w1) \<and> w' = cleanup p w1)
         \<and> ((\<forall>i<length (frames p). \<not> unlink_denied w (framePath w i)) \<and> \<not> unlink_denied w (outputPath w)
              \<longrightarrow> (\<forall>i<length (frames p). files w' (framePath w i) = None) \<and> files w' (outputPath w) = None)" .
  qed
qed

theorem cleanup_on_every_exit_witness:
  "0 < channels swapped_payload
   \<and> map_option fst (convertTensorToVideo failing_encoder swapped_payload demo_world)
     = Some (Inl (ExecFailed ''exit status 1''))
   \<and> \<not> unlink_denied demo_world (framePath demo_world 0)
   \<and> \<not> unlink_denied demo_world (framePath demo_world 1)
   \<and> \<not> unlink_denied demo_world (outputPath demo_world)
   \<and> files (snd (the (convertTensorToVideo failing_encoder swapped_payload demo_world))) (framePath demo_world 0) = None
   \<and> files (snd (the (convertTensorToVideo failing_encoder swapped_payload demo_world))) (framePath demo_world 1) = None
   \<and> files (snd (the (convertTensorToVideo failing_encoder swapped_payload demo_world))) (outputPath demo_world) = None
   \<and> framePath demo_world 1 = ''/srv/temp_frames/frame_000001.ppm''"
proof -
  let ?X = "convertTensorToVideo failing_encoder swapped_payload demo_world"
  have r: "map_option fst ?X = Some (Inl (ExecFailed ''exit status 1''))" by code_simp
  then obtain w' where x: "?X = Some (Inl (ExecFailed ''exit status 1''), w')" by auto
  have n: "length (frames swapped_payload) = 2" by code_simp
  have u: "\<not> unlink_denied demo_world path" for path by (simp add: demo_world_def)
  have fp: "framePath demo_world 1 = ''/srv/temp_frames/frame_000001.ppm''" by code_simp
  from cleanup_on_every_exit[of swapped_payload failing_encoder demo_world] x
  have "(\<forall>i<length (frames swapped_payload). files w' (framePath demo_world i) = None)
        \<and> files w' (outputPath demo_world) = None" by (simp add: u)
  then have "files w' (framePath demo_world 0) = None" "files w' (framePath demo_world 1) = None"
    "files w' (outputPath demo_world) = None" unfolding n by simp_all
  moreover have "0 < channels swapped_payload" by code_simp
  ultimately show ?thesis using r u fp by (simp add: x)
qed

text \<open>
  C4 as stated fails when a deletion fails: the first \<open>unlinkSync\<close> that throws ends the
  cleanup, and the second frame file and the output file, which could be deleted, remain.
\<close>

theorem cleanup_stops_counterexample:
  "map_option fst (convertTensorToVideo fixed_encoder swapped_payload locked_world) = Some (Inr [0, 0, 0, 32])
   \<and> files (snd (the (convertTensorToVideo fixed_encoder swapped_payload locked_world)))
        ''/srv/temp_frames/frame_000001.ppm''
     = Some [80, 54, 10, 49, 32, 49, 10, 50, 53, 53, 10, 40, 50, 60]
   \<and> files (snd (the (convertTensorToVideo fixed_encoder swapped_payload locked_world)))
        ''/srv/temp_video.mp4''
     = Some [0, 0, 0, 32]
   \<and> unlink_denied locked_world ''/srv/temp_frames/frame_000001.ppm'' = False
   \<and> unlink_denied locked_world ''/srv/temp_video.mp4'' = False
   \<and> logged (snd (the (convertTensorToVideo fixed_encoder swapped_payload locked_world)))
     = [UnlinkFailed ''/srv/temp_frames/frame_000000.ppm'']"
  by code_simp

section \<open>What the external encoder is given\<close>

lemma stage_frames_from_zero:
  assumes "stage_frames p 0 (frames p) w = Some (Inr (), ws)" "0 < channels p" "i < length (frames p)"
  shows "files ws (framePath w i) =
         Some (utf8 (ppm_header (width p) (height p) @ packed_pixels (tensor_data (frames p ! i)) (channels p)))"
  using stage_frames_written[OF assms(1,3)] by (simp add: ppm_content_packed[OF assms(2)])

lemma ffmpegCommand_text:
  "ffmpegCommand w = ''ffmpeg -y -framerate 30 -i '' @ tempDir w @ ''/frame_%06d.ppm -c:v libx264 -pix_fmt yuv420p -crf 23 '' @ outputPath w"
  by (simp add: ffmpegCommand_def)

text \<open>
  C5, as amended. With a positive channel count the encoder returns, with an error or with
  a buffer. When it returns a buffer, every payload frame was staged as one image under the
  name of its position in the frame sequence, the external process was started exactly once
  on these files, with an input frame rate of 30 over the pattern \<open>frame_%06d.ppm\<close>, it
  exited with status 0, and the buffer is the content it left at the output path.
\<close>

theorem encode_contract:
  assumes "0 < channels p"
  shows "ffmpegCommand w = ''ffmpeg -y -framerate 30 -i '' @ tempDir w @ ''/frame_%06d.ppm -c:v libx264 -pix_fmt yuv420p -crf 23 '' @ outputPath w
       \<and> (\<exists>r w'. convertTensorToVideo enc p w = Some (r, w')
            \<and> (\<forall>buf. r = Inr buf \<longrightarrow>
                 (\<exists>ws fs. stage_frames p 0 (frames p) w = Some (Inr (), ws)
                    \<and> (\<forall>i<length (frames p). files ws (framePath w i) =
                          Some (utf8 (ppm_header (width p) (height p) @ packed_pixels (tensor_data (frames p ! i)) (channels p))))
                    \<and> enc (ffmpegCommand w) (files ws) = (None, fs)
                    \<and> fs (outputPath w) = Some buf
                    \<and> launched w' = launched w @ [ffmpegCommand w])))"
proof (rule conjI[OF ffmpegCommand_text])
  obtain r0 ws where st: "stage_frames p 0 (frames p) w = Some (r0, ws)"
    using stage_frames_returns[OF assms] by blast
  note s0 = stage_frames_setting[OF st]
  have cmd: "ffmpegCommand ws = ffmpegCommand w" using s0 by (intro ffmpegCommand_cwd) (simp add: same_setting_def)
  have op: "outputPath ws = outputPath w" using s0 by (intro outputPath_cwd) (simp add: same_setting_def)
  let ?goal = "\<exists>r w'. convertTensorToVideo enc p w = Some (r, w')
            \<and> (\<forall>buf. r = Inr buf \<longrightarrow>
                 (\<exists>ws fs. stage_frames p 0 (frames p) w = Some (Inr (), ws)
                    \<and> (\<forall>i<length (frames p). files ws (framePath w i) =
                          Some (utf8 (ppm_header (width p) (height p) @ packed_pixels (tensor_data (frames p ! i)) (channels p))))
                    \<and> enc (ffmpegCommand w) (files ws) = (None, fs)
                    \<and> fs (outputPath w) = Some buf
                    \<and> launched w' = launched w @ [ffmpegCommand w]))"
  show ?goal
  proof (cases r0)
    case (Inl e)
    then have "convertTensorToVideo enc p w = Some (Inl e, cleanup p ws)"
      using st by (simp add: convertTensorToVideo_def encode_body_def)
    then show ?thesis by simp
  next
    case (Inr u)
    obtain diag fs where e: "enc (ffmpegCommand w) (files ws) = (diag, fs)"
      by (cases "enc (ffmpegCommand w) (files ws)")
    let ?w2 = "ws\<lparr>files := fs, launched := launched ws @ [ffmpegCommand w]\<rparr>"
    have ex: "execAsync enc (ffmpegCommand ws) ws = (case diag of None \<Rightarrow> Inr () | Some d \<Rightarrow> Inl (ExecFailed d), ?w2)"
      using e by (simp add: execAsync_def cmd)
    show ?thesis
    proof (cases diag)
      case (Some d)
      then have "convertTensorToVideo enc p w = Some (Inl (ExecFailed d), cleanup p ?w2)"
        using st Inr ex by (simp add: convertTensorToVideo_def encode_body_def)
      then show ?thesis by simp
    next
      case None
      have op2: "outputPath ?w2 = outputPath w" using op by (simp add: outputPath_def)
      have conv: "convertTensorToVideo enc p w = Some (readFileSync (outputPath w) ?w2, cleanup p ?w2)"
        using st Inr ex None by (simp add: convertTensorToVideo_def encode_body_def op2)
      have l: "launched (cleanup p ?w2) = launched w @ [ffmpegCommand w]"
        using cleanup_setting[of ?w2 p] s0 by simp
      have st': "stage_frames p 0 (frames p) w = Some (Inr (), ws)" using st Inr by simp
      have staged: "\<forall>i<length (frames p). files ws (framePath w i) =
          Some (utf8 (ppm_header (width p) (height p) @ packed_pixels (tensor_data (frames p ! i)) (channels p)))"
        using stage_frames_from_zero[OF st' assms] by simp
      have e': "enc (ffmpegCommand w) (files ws) = (None, fs)" using e None by simp
      have rd: "fs (outputPath w) = Some buf" if "readFileSync (outputPath w) ?w2 = Inr buf" for buf
        using that by (auto simp: readFileSync_def split: option.splits)
      show ?thesis
        unfolding conv
      proof (intro exI conjI allI impI)
        show "Some (readFileSync (outputPath w) ?w2, cleanup p ?w2) = Some (readFileSync (outputPath w) ?w2, cleanup p ?w2)"
          by (rule refl)
      next
        fix buf assume "readFileSync (outputPath w) ?w2 = Inr buf"
        then show "fs (outputPath w) = Some buf" by (rule rd)
      qed (rule st' staged[rule_format] e' l | assumption)+
    qed
  qed
qed

theorem encode_contract_witness:
  "0 < channels swapped_payload
   \<and> map_option fst (convertTensorToVideo fixed_encoder swapped_payload demo_world) = Some (Inr [0, 0, 0, 32])
   \<and> launched (snd (the (convertTensorToVideo fixed_encoder swapped_payload demo_world)))
     = [''ffmpeg -y -framerate 30 -i /srv/temp_frames/frame_%06d.ppm -c:v libx264 -pix_fmt yuv420p -crf 23 /srv/temp_video.mp4'']
   \<and> files (snd (the (stage_frames swapped_payload 0 (frames swapped_payload) demo_world))) (framePath demo_world 1)
     = Some [80, 54, 10, 49, 32, 49, 10, 50, 53, 53, 10, 40, 50, 60]"
proof -
  let ?X = "convertTensorToVideo fixed_encoder swapped_payload demo_world"
  have h: "0 < channels swapped_payload" by code_simp
  have r: "map_option fst ?X = Some (Inr [0, 0, 0, 32])" by code_simp
  have n: "(1::nat) < length (frames swapped_payload)" by code_simp
  have c: "launched demo_world @ [ffmpegCommand demo_world]
     = [''ffmpeg -y -framerate 30 -i /srv/temp_frames/frame_%06d.ppm -c:v libx264 -pix_fmt yuv420p -crf 23 /srv/temp_video.mp4'']"
    by code_simp
  have e: "utf8 (ppm_header (width swapped_payload) (height swapped_payload)
             @ packed_pixels (tensor_data (frames swapped_payload ! 1)) (channels swapped_payload))
           = [80, 54, 10, 49, 32, 49, 10, 50, 53, 53, 10, 40, 50, 60]" by code_simp
  from encode_contract[OF h, of demo_world fixed_encoder]
  obtain r' w' where x: "?X = Some (r', w')"
    and t: "\<forall>buf. r' = Inr buf \<longrightarrow>
            (\<exists>ws fs. stage_frames swapped_payload 0 (frames swapped_payload) demo_world = Some (Inr (), ws)
               \<and> (\<forall>i<length (frames swapped_payload). files ws (framePath demo_world i) =
                     Some (utf8 (ppm_header (width swapped_payload) (height swapped_payload)
                        @ packed_pixels (tensor_data (frames swapped_payload ! i)) (channels swapped_payload))))
               \<and> fixed_encoder (ffmpegCommand demo_world) (files ws) = (None, fs)
               \<and> fs (outputPath demo_world) = Some buf
               \<and> launched w' = launched demo_world @ [ffmpegCommand demo_world])"
    by blast
  have r': "r' = Inr [0, 0, 0, 32]" using r x by simp
  from t r' obtain ws where ws: "stage_frames swapped_payload 0 (frames swapped_payload) demo_world = Some (Inr (), ws)"
    "\<forall>i<length (frames swapped_payload). files ws (framePath demo_world i) =
       Some (utf8 (ppm_header (width swapped_payload) (height swapped_payload)
          @ packed_pixels (tensor_data (frames swapped_payload ! i)) (channels swapped_payload)))"
    "launched w' = launched demo_world @ [ffmpegCommand demo_world]" by blast
  have "files ws (framePath demo_world 1) = Some [80, 54, 10, 49, 32, 49, 10, 50, 53, 53, 10, 40, 50, 60]"
    using ws(2) n unfolding e[symmetric] by blast
  then show ?thesis using h r ws(1,3) x c by simp
qed

text \<open>
  C5 as stated names the order of the \<open>frame_index\<close> fields, which the code never reads:
  the frame with \<open>frame_index = 1\<close> that comes first in the sequence is staged as
  \<open>frame_000000.ppm\<close>, and it is the first image an encoder finds in file-name order.
\<close>

theorem position_order_counterexample:
  "map frame_index (frames swapped_payload) = [1, 0]
   \<and> map tensor_data (frames swapped_payload) = [[Fin 10, Fin 20, Fin 30], [Fin 40, Fin 50, Fin 60]]
   \<and> map_option fst (stage_frames swapped_payload 0 (frames swapped_payload) demo_world) = Some (Inr ())
   \<and> files (snd (the (stage_frames swapped_payload 0 (frames swapped_payload) demo_world)))
        ''/srv/temp_frames/frame_000000.ppm''
     = Some [80, 54, 10, 49, 32, 49, 10, 50, 53, 53, 10, 10, 20, 30]
   \<and> files (snd (the (stage_frames swapped_payload 0 (frames swapped_payload) demo_world)))
        ''/srv/temp_frames/frame_000001.ppm''
     = Some [80, 54, 10, 49, 32, 49, 10, 50, 53, 53, 10, 40, 50, 60]
   \<and> map_option fst (convertTensorToVideo first_image_encoder swapped_payload demo_world)
     = Some (Inr [80, 54, 10, 49, 32, 49, 10, 50, 53, 53, 10, 10, 20, 30])"
  by code_simp

section \<open>The per-frame geometry fields\<close>

lemma ppm_content_erase: "ppm_content (erase_geometry p) (erase_frame_geometry f) = ppm_content p f"
  by (simp add: ppm_content_def erase_geometry_def erase_frame_geometry_def)

lemma stage_frames_erase:
  "stage_frames (erase_geometry p) i (map erase_frame_geometry fs) w = stage_frames p i fs w"
  by (induction fs arbitrary: i w) (simp_all add: ppm_content_erase split: option.splits prod.splits sum.splits)

lemma encode_body_erase: "encode_body enc (erase_geometry p) w = encode_body enc p w"
proof -
  have "stage_frames (erase_geometry p) 0 (frames (erase_geometry p)) w = stage_frames p 0 (frames p) w"
    using stage_frames_erase[of p 0 "frames p" w] by (simp add: erase_geometry_def)
  then show ?thesis by (simp add: encode_body_def)
qed

lemma cleanup_erase: "cleanup (erase_geometry p) w = cleanup p w"
  by (simp add: cleanup_def erase_geometry_def)

lemma convert_erase: "convertTensorToVideo enc (erase_geometry p) w = convertTensorToVideo enc p w"
  by (simp add: convertTensorToVideo_def encode_body_erase cleanup_erase cong: option.case_cong)

text \<open>
  C9. Two payloads that differ only in the per-frame \<open>width\<close>, \<open>height\<close> and \<open>channels\<close>
  fields stage the same files, hand the external encoder the same command and files, and
  return the same outcome; the samples of pixel \<open>k\<close> are read from the payload-level
  \<open>channels * k\<close> on.
\<close>

theorem frame_geometry_ignored:
  assumes "erase_geometry p = erase_geometry q"
  shows "stage_frames p 0 (frames p) w = stage_frames q 0 (frames q) w
       \<and> encode_body enc p w = encode_body enc q w
       \<and> convertTensorToVideo enc p w = convertTensorToVideo enc q w
       \<and> (0 < channels p \<longrightarrow>
            ppm_content p f = Some (ppm_header (width p) (height p) @ packed_pixels (tensor_data f) (channels p)))"
proof -
  have "stage_frames p 0 (frames p) w = stage_frames (erase_geometry p) 0 (frames (erase_geometry p)) w"
    using stage_frames_erase[of p 0 "frames p" w] by (simp add: erase_geometry_def)
  also have "\<dots> = stage_frames q 0 (frames q) w"
    unfolding assms using stage_frames_erase[of q 0 "frames q" w] by (simp add: erase_geometry_def)
  finally have a: "stage_frames p 0 (frames p) w = stage_frames q 0 (frames q) w" .
  have b: "encode_body enc p w = encode_body enc q w"
    using encode_body_erase[of enc p w] encode_body_erase[of enc q w] assms by simp
  have c: "convertTensorToVideo enc p w = convertTensorToVideo enc q w"
    using convert_erase[of enc p w] convert_erase[of enc q w] assms by simp
  show ?thesis using a b c by (simp add: ppm_content_packed)
qed

theorem frame_geometry_ignored_witness:
  "erase_geometry short_payload = erase_geometry resized_payload
   \<and> map frame_channels (frames short_payload) = [3]
   \<and> map frame_channels (frames resized_payload) = [1]
   \<and> stage_frames short_payload 0 (frames short_payload) demo_world
     = stage_frames resized_payload 0 (frames resized_payload) demo_world
   \<and> convertTensorToVideo fixed_encoder short_payload demo_world
     = convertTensorToVideo fixed_encoder resized_payload demo_world
   \<and> 0 < channels short_payload
   \<and> ppm_content short_payload (hd (frames resized_payload)) = Some (ppm_header 2 2 @ [255, 0, 3, 12, 0, 0])"
proof -
  have h: "erase_geometry short_payload = erase_geometry resized_payload"
    by (simp add: erase_geometry_def erase_frame_geometry_def resized_payload_def short_payload_def)
  have a: "map frame_channels (frames short_payload) = [3]" by code_simp
  have b: "map frame_channels (frames resized_payload) = [1]" by code_simp
  have c: "0 < channels short_payload" by code_simp
  have e: "ppm_header (width short_payload) (height short_payload)
            @ packed_pixels (tensor_data (hd (frames resized_payload))) (channels short_payload)
           = ppm_header 2 2 @ [255, 0, 3, 12, 0, 0]" by code_simp
  note t = frame_geometry_ignored[OF h, of demo_world fixed_encoder "hd (frames resized_payload)", unfolded e]
  show ?thesis using t h a b c by blast
qed

section \<open>A retrieval that fails\<close>

lemma fetchTensorData_rejected:
  "net url = Rejected reason \<Longrightarrow>
   fetchTensorData net url w = (Inl (NetworkFailed reason), console_error (NetworkFailed reason) w)"
  by (simp add: fetchTensorData_def)

lemma fetchTensorData_not_ok:
  "net url = Response False statusText body \<Longrightarrow>
   fetchTensorData net url w =
     (Inl (FetchFailed (''Failed to fetch tensor data: '' @ statusText)),
      console_error (FetchFailed (''Failed to fetch tensor data: '' @ statusText)) w)"
  by (simp add: fetchTensorData_def)

lemma POST_source_error:
  assumes "resolve_source net now body w = (Inl e, w1)"
  shows "POST enc net now (Some body) w = Some (failure e w1)"
  using assms by (simp add: POST_def)

lemma resolve_source_url:
  "url \<noteq> [] \<Longrightarrow> resolve_source net now \<lparr>tensor_url = Some url, camera_name_field = cn\<rparr> w = fetchTensorData net url w"
  by (cases url) (simp_all add: resolve_source_def)

text \<open>
  C6. For a non-empty \<open>tensor_url\<close> whose retrieval is rejected (transport failure) or
  answered with a response that is not \<open>ok\<close>, \<open>fetchTensorData\<close> fails with an error that
  carries the rejection reason or the status text of the response, the request ends in the
  failure response, the external encoder is not started and no file is created.
\<close>

theorem fetch_failure_fails_request:
  assumes "url \<noteq> []"
    and "net url = Rejected reason \<or> net url = Response False statusText body"
  shows "fst (fetchTensorData net url w) =
           Inl (case net url of
                  Rejected m \<Rightarrow> NetworkFailed m
                | Response ok st b \<Rightarrow> FetchFailed (''Failed to fetch tensor data: '' @ st))
       \<and> (\<exists>w'. POST enc net now (Some \<lparr>tensor_url = Some url, camera_name_field = cn\<rparr>) w
                 = Some (JsonResponse 500 ''Failed to convert tensor data to video'', w')
              \<and> files w' = files w \<and> launched w' = launched w)"
proof -
  from assms(2) obtain e where
    f: "fetchTensorData net url w = (Inl e, console_error e w)"
    and e: "e = (case net url of
                  Rejected m \<Rightarrow> NetworkFailed m
                | Response ok st b \<Rightarrow> FetchFailed (''Failed to fetch tensor data: '' @ st))"
    by (auto simp: fetchTensorData_rejected fetchTensorData_not_ok)
  have "resolve_source net now \<lparr>tensor_url = Some url, camera_name_field = cn\<rparr> w = (Inl e, console_error e w)"
    using resolve_source_url[OF assms(1)] f by simp
  from POST_source_error[OF this]
  have "POST enc net now (Some \<lparr>tensor_url = Some url, camera_name_field = cn\<rparr>) w
        = Some (failure e (console_error e w))" .
  then show ?thesis using f e by (simp add: failure_def console_error_def)
qed

theorem fetch_failure_fails_request_witness:
  "''http://example.org/tensor.json'' \<noteq> []
   \<and> not_found_net ''http://example.org/tensor.json'' = Response False ''Not Found'' None
   \<and> fst (fetchTensorData not_found_net ''http://example.org/tensor.json'' demo_world)
       = Inl (FetchFailed ''Failed to fetch tensor data: Not Found'')
   \<and> map_option fst (POST fixed_encoder not_found_net epoch_clock
          (Some \<lparr>tensor_url = Some ''http://example.org/tensor.json'', camera_name_field = None\<rparr>) demo_world)
       = Some (JsonResponse 500 ''Failed to convert tensor data to video'')
   \<and> launched (snd (the (POST fixed_encoder not_found_net epoch_clock
          (Some \<lparr>tensor_url = Some ''http://example.org/tensor.json'', camera_name_field = None\<rparr>) demo_world)))
       = []
   \<and> files (snd (the (POST fixed_encoder not_found_net epoch_clock
          (Some \<lparr>tensor_url = Some ''http://example.org/tensor.json'', camera_name_field = None\<rparr>) demo_world)))
          (framePath demo_world 0)
       = None"
proof -
  have h1: "''http://example.org/tensor.json'' \<noteq> []" by simp
  have n: "not_found_net ''http://example.org/tensor.json'' = Response False ''Not Found'' None"
    by (simp add: not_found_net_def)
  then have h2: "not_found_net ''http://example.org/tensor.json'' = Rejected []
      \<or> not_found_net ''http://example.org/tensor.json'' = Response False ''Not Found'' None"
    by simp
  have d: "launched demo_world = []" "files demo_world (framePath demo_world 0) = None"
    by (simp_all add: demo_world_def)
  from fetch_failure_fails_request[where url = "''http://example.org/tensor.json''" and net = not_found_net
      and reason = "[]" and statusText = "''Not Found''" and body = None
      and w = demo_world and enc = fixed_encoder and now = epoch_clock and cn = None, OF h1 h2]
  show ?thesis using h1 n d by (auto simp: n)
qed

section \<open>The generated placeholder\<close>

lemma toISOString_valid: "\<bar>t\<bar> \<le> 8640000000000000 \<Longrightarrow> toISOString t = Some (iso_text t)"
  by (simp add: toISOString_def)

lemma instants_validD: "instants_valid now \<Longrightarrow> i < 60 \<Longrightarrow> \<bar>frame_instant now i\<bar> \<le> 8640000000000000"
  by (simp add: instants_valid_def list_all_iff)

lemma mock_frame_valid:
  "\<bar>frame_instant now i\<bar> \<le> 8640000000000000 \<Longrightarrow>
   mock_frame now name i =
     Inr \<lparr>frame_index = i, timestamp = iso_text (frame_instant now i),
          tensor_data = mock_tensor (includes_str name ''Front'') 320 240 i,
          frame_width = 320, frame_height = 240, frame_channels = 3\<rparr>"
  by (simp add: mock_frame_def toISOString_valid)

lemma array_from_all:
  "(\<And>i. i \<in> set is \<Longrightarrow> g i = Inr (h i)) \<Longrightarrow> array_from g is = Inr (map h is)"
  by (induction "is") simp_all

lemma generate_valid:
  assumes "instants_valid now"
  shows "generateMockTensorData now name =
         Inr \<lparr>camera_name = name,
              frames = map (\<lambda>i. \<lparr>frame_index = i, timestamp = iso_text (frame_instant now i),
                                 tensor_data = mock_tensor (includes_str name ''Front'') 320 240 i,
                                 frame_width = 320, frame_height = 240, frame_channels = 3\<rparr>) [0..<60],
              width = 320, height = 240, channels = 3\<rparr>"
proof -
  have "array_from (mock_frame now name) [0..<60] =
        Inr (map (\<lambda>i. \<lparr>frame_index = i, timestamp = iso_text (frame_instant now i),
                                 tensor_data = mock_tensor (includes_str name ''Front'') 320 240 i,
                                 frame_width = 320, frame_height = 240, frame_channels = 3\<rparr>) [0..<60])"
    by (rule array_from_all) (simp add: mock_frame_valid instants_validD[OF assms])
  then show ?thesis by (simp add: generateMockTensorData_def)
qed

lemma length_concat_const:
  "(\<And>x. x \<in> set xs \<Longrightarrow> length (g x) = n) \<Longrightarrow> length (concat (map g xs)) = n * length xs"
  by (induction xs) simp_all

lemma length_mock_pixel: "length (mock_pixel front w x i) = 3"
  by (simp add: mock_pixel_def Let_def)

lemma length_mock_tensor: "length (mock_tensor front w h i) = w * h * 3"
proof -
  have "length (concat (map (\<lambda>x. mock_pixel front w x i) [0..<w])) = 3 * w" for y :: nat
    using length_concat_const[of "[0..<w]" "\<lambda>x. mock_pixel front w x i" 3]
    by (simp add: length_mock_pixel)
  then have "length (mock_tensor front w h i) = (3 * w) * length [0..<h]"
    unfolding mock_tensor_def by (intro length_concat_const) simp
  then show ?thesis by simp
qed

lemma frame_instant_mono:
  assumes "\<And>i. now i \<le> now (Suc i)" "i < j"
  shows "frame_instant now i < frame_instant now j"
proof -
  have "now i \<le> now j" using assms(2)
  proof (induction j)
    case 0
    then show ?case by simp
  next
    case (Suc j)
    show ?case
    proof (cases "i = j")
      case True
      then show ?thesis using assms(1) by simp
    next
      case False
      then have "i < j" using Suc.prems by simp
      then have "now i \<le> now j" by (rule Suc.IH)
      also have "\<dots> \<le> now (Suc j)" by (rule assms(1))
      finally show ?thesis .
    qed
  qed
  then show ?thesis using assms(2) by (simp add: frame_instant_def)
qed

lemma valid_epoch: "instants_valid epoch_clock" by code_simp
lemma valid_later: "instants_valid later_clock" by code_simp
lemma valid_ticking: "instants_valid ticking_clock" by code_simp

lemma generated_timestamp:
  assumes "instants_valid now" "i < 60"
  shows "timestamp (frames (projr (generateMockTensorData now name)) ! i) = iso_text (frame_instant now i)"
  using assms(2) by (simp add: generate_valid[OF assms(1)])

text \<open>
  C8, as amended. For every camera label, when the clock readings give time values that
  \<open>toISOString\<close> accepts, the placeholder has exactly 60 frames, each 320 by 240 with 3
  channels and a tensor of \<open>320 * 240 * 3\<close> samples; frame \<open>i\<close> carries the timestamp of the
  instant \<open>now i + 33 * i\<close>, where \<open>now i\<close> is the clock reading taken while frame \<open>i\<close> is
  built. These instants increase strictly when the clock does not go backwards, and they
  are 33 milliseconds apart when the clock reads the same value for every frame.
\<close>

theorem mock_payload_structure:
  assumes "instants_valid now"
  shows "\<exists>p. generateMockTensorData now name = Inr p
       \<and> camera_name p = name \<and> length (frames p) = 60
       \<and> width p = 320 \<and> height p = 240 \<and> channels p = 3
       \<and> (\<forall>i<60. frame_index (frames p ! i) = i
              \<and> frame_width (frames p ! i) = 320 \<and> frame_height (frames p ! i) = 240
              \<and> frame_channels (frames p ! i) = 3
              \<and> length (tensor_data (frames p ! i)) = 320 * 240 * 3
              \<and> timestamp (frames p ! i) = iso_text (frame_instant now i)
              \<and> frame_instant now i = now i + int i * 33)
       \<and> ((\<forall>i. now i \<le> now (Suc i)) \<longrightarrow> (\<forall>i j. i < j \<longrightarrow> frame_instant now i < frame_instant now j))
       \<and> ((\<forall>i. now i = now 0) \<longrightarrow> (\<forall>i. frame_instant now (Suc i) - frame_instant now i = 33))"
proof -
  let ?p = "\<lparr>camera_name = name,
              frames = map (\<lambda>i. \<lparr>frame_index = i, timestamp = iso_text (frame_instant now i),
                                 tensor_data = mock_tensor (includes_str name ''Front'') 320 240 i,
                                 frame_width = 320, frame_height = 240, frame_channels = 3\<rparr>) [0..<60],
              width = 320, height = 240, channels = 3\<rparr>"
  have g: "generateMockTensorData now name = Inr ?p" by (rule generate_valid[OF assms])
  have a: "camera_name ?p = name" "length (frames ?p) = 60" "width ?p = 320" "height ?p = 240" "channels ?p = 3"
    by simp_all
  have b: "\<forall>i<60. frame_index (frames ?p ! i) = i
              \<and> frame_width (frames ?p ! i) = 320 \<and> frame_height (frames ?p ! i) = 240
              \<and> frame_channels (frames ?p ! i) = 3
              \<and> length (tensor_data (frames ?p ! i)) = 320 * 240 * 3
              \<and> timestamp (frames ?p ! i) = iso_text (frame_instant now i)
              \<and> frame_instant now i = now i + int i * 33"
    by (simp add: length_mock_tensor frame_instant_def)
  have c: "(\<forall>i. now i \<le> now (Suc i)) \<longrightarrow> (\<forall>i j. i < j \<longrightarrow> frame_instant now i < frame_instant now j)"
    using frame_instant_mono[of now] by blast
  have d: "(\<forall>i. now i = now 0) \<longrightarrow> (\<forall>i. frame_instant now (Suc i) - frame_instant now i = 33)"
  proof (intro impI allI)
    fix i assume "\<forall>i. now i = now 0"
    then have "now (Suc i) = now i" by metis
    then show "frame_instant now (Suc i) - frame_instant now i = 33" by (simp add: frame_instant_def)
  qed
  show ?thesis
    by (rule exI[of _ ?p]) (intro conjI g a b c d)
qed

theorem mock_payload_structure_witness:
  "instants_valid epoch_clock
   \<and> length (frames (projr (generateMockTensorData epoch_clock ''Front Camera''))) = 60
   \<and> frame_width (frames (projr (generateMockTensorData epoch_clock ''Front Camera'')) ! 59) = 320
   \<and> timestamp (frames (projr (generateMockTensorData epoch_clock ''Front Camera'')) ! 1)
       = ''1970-01-01T00:00:00.033Z''
   \<and> epoch_clock 1 \<le> epoch_clock 2
   \<and> frame_instant epoch_clock 1 < frame_instant epoch_clock 2
   \<and> frame_instant epoch_clock 2 - frame_instant epoch_clock 1 = 33"
proof -
  have e: "iso_text (frame_instant epoch_clock 1) = ''1970-01-01T00:00:00.033Z''" by code_simp
  have m: "\<forall>i. epoch_clock i \<le> epoch_clock (Suc i)" by (simp add: epoch_clock_def)
  have s: "\<forall>i. epoch_clock i = epoch_clock 0" by (simp add: epoch_clock_def)
  from mock_payload_structure[OF valid_epoch, of "''Front Camera''"]
  obtain p where g: "generateMockTensorData epoch_clock ''Front Camera'' = Inr p"
    and l: "length (frames p) = 60"
    and f: "\<forall>i<60. frame_index (frames p ! i) = i
              \<and> frame_width (frames p ! i) = 320 \<and> frame_height (frames p ! i) = 240
              \<and> frame_channels (frames p ! i) = 3
              \<and> length (tensor_data (frames p ! i)) = 320 * 240 * 3
              \<and> timestamp (frames p ! i) = iso_text (frame_instant epoch_clock i)
              \<and> frame_instant epoch_clock i = epoch_clock i + int i * 33"
    and c: "(\<forall>i. epoch_clock i \<le> epoch_clock (Suc i)) \<longrightarrow> (\<forall>i j. i < j \<longrightarrow> frame_instant epoch_clock i < frame_instant epoch_clock j)"
    and d: "(\<forall>i. epoch_clock i = epoch_clock 0) \<longrightarrow> (\<forall>i. frame_instant epoch_clock (Suc i) - frame_instant epoch_clock i = 33)"
    by blast
  have f59: "frame_width (frames p ! 59) = 320" using f by simp
  have f1: "timestamp (frames p ! 1) = ''1970-01-01T00:00:00.033Z''" using f e by simp
  have c12: "frame_instant epoch_clock 1 < frame_instant epoch_clock 2" using c m by simp
  have "frame_instant epoch_clock (Suc 1) - frame_instant epoch_clock 1 = 33" using d s by blast
  then have d12: "frame_instant epoch_clock 2 - frame_instant epoch_clock 1 = 33" unfolding Suc_1 .
  show ?thesis using valid_epoch g l f59 f1 c12 d12 by (simp add: epoch_clock_def)
qed

text \<open>
  C8 as stated fails when the clock advances between two frames: with one tick while the
  third frame is built the timestamps are 33 and then 34 milliseconds apart.
\<close>

theorem uneven_timestamps_counterexample:
  "timestamp (frames (projr (generateMockTensorData ticking_clock ''Front Camera'')) ! 0)
     = ''1970-01-01T00:00:00.000Z''
   \<and> timestamp (frames (projr (generateMockTensorData ticking_clock ''Front Camera'')) ! 1)
     = ''1970-01-01T00:00:00.033Z''
   \<and> timestamp (frames (projr (generateMockTensorData ticking_clock ''Front Camera'')) ! 2)
     = ''1970-01-01T00:00:00.067Z''
   \<and> frame_instant ticking_clock 1 - frame_instant ticking_clock 0 = 33
   \<and> frame_instant ticking_clock 2 - frame_instant ticking_clock 1 = 34"
proof -
  have e0: "iso_text (frame_instant ticking_clock 0) = ''1970-01-01T00:00:00.000Z''" by code_simp
  have e1: "iso_text (frame_instant ticking_clock 1) = ''1970-01-01T00:00:00.033Z''" by code_simp
  have e2: "iso_text (frame_instant ticking_clock 2) = ''1970-01-01T00:00:00.067Z''" by code_simp
  have d1: "frame_instant ticking_clock 1 - frame_instant ticking_clock 0 = 33" by code_simp
  have d2: "frame_instant ticking_clock 2 - frame_instant ticking_clock 1 = 34" by code_simp
  show ?thesis
    using e0 e1 e2 d1 d2 by (simp add: generated_timestamp[OF valid_ticking])
qed

lemma erase_generated:
  assumes "instants_valid now"
  shows "erase_timestamps (projr (generateMockTensorData now name)) =
         \<lparr>camera_name = name,
              frames = map (\<lambda>i. \<lparr>frame_index = i, timestamp = [],
                                 tensor_data = mock_tensor (includes_str name ''Front'') 320 240 i,
                                 frame_width = 320, frame_height = 240, frame_channels = 3\<rparr>) [0..<60],
              width = 320, height = 240, channels = 3\<rparr>"
  by (simp add: generate_valid[OF assms] erase_timestamps_def)

text \<open>
  C10, as amended. The placeholder is a function of the camera label and of the clock
  readings: two invocations with the same label and valid clock readings produce payloads
  that agree in everything but the timestamps, and identical payloads when the clock
  readings agree for all 60 frames.
\<close>

theorem mock_payload_determined:
  assumes "instants_valid now1" "instants_valid now2"
  shows "\<exists>p1 p2. generateMockTensorData now1 name = Inr p1 \<and> generateMockTensorData now2 name = Inr p2
       \<and> erase_timestamps p1 = erase_timestamps p2
       \<and> ((\<forall>i<60. now1 i = now2 i) \<longrightarrow> p1 = p2)"
proof -
  obtain p1 where p1: "generateMockTensorData now1 name = Inr p1"
    using generate_valid[OF assms(1)] by blast
  obtain p2 where p2: "generateMockTensorData now2 name = Inr p2"
    using generate_valid[OF assms(2)] by blast
  have e: "erase_timestamps p1 = erase_timestamps p2"
    using erase_generated[OF assms(1), of name] erase_generated[OF assms(2), of name] p1 p2 by simp
  have s: "p1 = p2" if "\<forall>i<60. now1 i = now2 i"
  proof -
    have "frame_instant now1 i = frame_instant now2 i" if "i < 60" for i
      using \<open>\<forall>i<60. now1 i = now2 i\<close> that by (simp add: frame_instant_def)
    then have "generateMockTensorData now1 name = generateMockTensorData now2 name"
      unfolding generate_valid[OF assms(1)] generate_valid[OF assms(2)] by simp
    then show ?thesis using p1 p2 by simp
  qed
  show ?thesis using p1 p2 e s by blast
qed

theorem mock_payload_determined_witness:
  "instants_valid epoch_clock \<and> instants_valid later_clock
   \<and> erase_timestamps (projr (generateMockTensorData epoch_clock ''Wrist Camera''))
     = erase_timestamps (projr (generateMockTensorData later_clock ''Wrist Camera''))"
proof -
  from mock_payload_determined[OF valid_epoch valid_later, of "''Wrist Camera''"]
  obtain p1 p2 where "generateMockTensorData epoch_clock ''Wrist Camera'' = Inr p1"
    "generateMockTensorData later_clock ''Wrist Camera'' = Inr p2"
    "erase_timestamps p1 = erase_timestamps p2" by blast
  then show ?thesis using valid_epoch valid_later by simp
qed

text \<open>
  C10 as stated fails: with the same label, an invocation a millisecond later produces
  other timestamps and so another payload.
\<close>

theorem clock_dependence_counterexample:
  "timestamp (frames (projr (generateMockTensorData epoch_clock ''Front Camera'')) ! 0)
     = ''1970-01-01T00:00:00.000Z''
   \<and> timestamp (frames (projr (generateMockTensorData later_clock ''Front Camera'')) ! 0)
     = ''1970-01-01T00:00:00.001Z''
   \<and> generateMockTensorData epoch_clock ''Front Camera'' \<noteq> generateMockTensorData later_clock ''Front Camera''"
proof -
  have e0: "iso_text (frame_instant epoch_clock 0) = ''1970-01-01T00:00:00.000Z''" by code_simp
  have e1: "iso_text (frame_instant later_clock 0) = ''1970-01-01T00:00:00.001Z''" by code_simp
  have t0: "timestamp (frames (projr (generateMockTensorData epoch_clock ''Front Camera'')) ! 0)
     = ''1970-01-01T00:00:00.000Z''"
    using e0 by (simp add: generated_timestamp[OF valid_epoch])
  have t1: "timestamp (frames (projr (generateMockTensorData later_clock ''Front Camera'')) ! 0)
     = ''1970-01-01T00:00:00.001Z''"
    using e1 by (simp add: generated_timestamp[OF valid_later])
  have "generateMockTensorData epoch_clock ''Front Camera'' \<noteq> generateMockTensorData later_clock ''Front Camera''"
  proof
    assume "generateMockTensorData epoch_clock ''Front Camera'' = generateMockTensorData later_clock ''Front Camera''"
    then have "timestamp (frames (projr (generateMockTensorData epoch_clock ''Front Camera'')) ! 0)
        = timestamp (frames (projr (generateMockTensorData later_clock ''Front Camera'')) ! 0)" by simp
    then show False unfolding t0 t1 by simp
  qed
  then show ?thesis using t0 t1 by simp
qed

section \<open>Frames with fewer samples than the raster\<close>











end
